theory Spec2Isabelle
  imports Main "HOL-Library.Word"
begin

section \<open>JavaScript strings\<close>

text \<open>
  A JavaScript string is a sequence of UTF-16 code units: \<open>length\<close>, \<open>slice\<close>,
  \<open>startsWith\<close> and \<open>trim\<close> all work on code units. String literals of the
  source that are plain ASCII are written with \<open>lit\<close>.
\<close>

type_synonym code_unit = "16 word"
type_synonym jsstring = "code_unit list"

definition lit :: "string \<Rightarrow> jsstring" where
  "lit s = map of_char s"

text \<open>
  \<open>String.prototype.trim\<close> strips WhiteSpace and LineTerminator code points
  (ECMAScript: TAB, VT, FF, SP, NBSP, ZWNBSP, the Unicode category Zs, LF, CR, LS, PS)
  from both ends. All of them are single code units.
\<close>

definition isWhiteSpace :: "code_unit \<Rightarrow> bool" where
  "isWhiteSpace c \<longleftrightarrow>
     c = 0x0009 \<or> c = 0x000A \<or> c = 0x000B \<or> c = 0x000C \<or> c = 0x000D \<or>
     c = 0x0020 \<or> c = 0x00A0 \<or> c = 0x1680 \<or> (0x2000 \<le> c \<and> c \<le> 0x200A) \<or>
     c = 0x2028 \<or> c = 0x2029 \<or> c = 0x202F \<or> c = 0x205F \<or> c = 0x3000 \<or>
     c = 0xFEFF"

definition trimStart :: "jsstring \<Rightarrow> jsstring" where
  "trimStart s = dropWhile isWhiteSpace s"

definition trimEnd :: "jsstring \<Rightarrow> jsstring" where
  "trimEnd s = rev (dropWhile isWhiteSpace (rev s))"

definition trim :: "jsstring \<Rightarrow> jsstring" where
  "trim s = trimEnd (trimStart s)"

definition startsWith :: "jsstring \<Rightarrow> jsstring \<Rightarrow> bool" where
  "startsWith s p \<longleftrightarrow> take (length p) s = p"

text \<open>\<open>Array.prototype.join\<close> on an array of strings.\<close>

fun join :: "jsstring \<Rightarrow> jsstring list \<Rightarrow> jsstring" where
  "join sep [] = []"
| "join sep [x] = x"
| "join sep (x # y # ys) = x @ sep @ join sep (y # ys)"

text \<open>A non-negative integer in a template literal: its decimal digits.\<close>

fun decimal :: "nat \<Rightarrow> jsstring" where
  "decimal n =
     (if n < 10 then [of_nat (48 + n)]
      else decimal (n div 10) @ [of_nat (48 + n mod 10)])"

declare decimal.simps [simp del]

text \<open>\<open>xs.slice(-n)\<close>: the last \<open>n\<close> elements, all of them when there are fewer.\<close>

definition slice_last :: "nat \<Rightarrow> 'a list \<Rightarrow> 'a list" where
  "slice_last n xs = drop (length xs - n) xs"

section \<open>Data model\<close>

text \<open>
  Values that \<open>JSON.parse\<close> can produce. An object is the list of its own
  properties, looked up by name from the front. The payload of a number is never
  inspected by the component.
\<close>

datatype json =
    JNull
  | JBool bool
  | JNum int
  | JStr jsstring
  | JArr "json list"
  | JObj "(jsstring \<times> json) list"

datatype Role = User | Assistant

text \<open>
  \<open>ChatMessage\<close>. The declared type of \<open>text\<close> is \<open>string\<close>, but the reply text is
  taken unchecked from the parsed response body, so at run time the field holds whatever
  JSON value the server sent.
\<close>

record ChatMessage =
  msg_id :: jsstring
  msg_role :: Role
  msg_text :: json
  msg_ts :: nat

text \<open>
  \<open>PendingFile = File\<close>: the name and declared media type, and what a \<open>FileReader\<close>
  delivers for the file: \<open>None\<close> when the reader fires \<open>onerror\<close>.
\<close>

record File =
  name :: jsstring
  type :: jsstring
  dataURL :: "jsstring option"
  decodedText :: "jsstring option"

datatype OpenRouterContentBlock =
    Text json
  | Image_url jsstring
  | File_block jsstring jsstring

datatype OpenRouterRole = RSystem | RUser | RAssistant

record OpenRouterMessage =
  role :: OpenRouterRole
  content :: "OpenRouterContentBlock list"

fun openRouterRole :: "Role \<Rightarrow> OpenRouterRole" where
  "openRouterRole User = RUser"
| "openRouterRole Assistant = RAssistant"

datatype Tone = Neutral | Friendly | Formal
datatype Depth = Concise | Balanced | Detailed
datatype CitationMode = Auto | Always | Never

fun toneString :: "Tone \<Rightarrow> jsstring" where
  "toneString Neutral = lit ''neutral''"
| "toneString Friendly = lit ''friendly''"
| "toneString Formal = lit ''formal''"

fun depthString :: "Depth \<Rightarrow> jsstring" where
  "depthString Concise = lit ''concise''"
| "depthString Balanced = lit ''balanced''"
| "depthString Detailed = lit ''detailed''"

fun citationString :: "CitationMode \<Rightarrow> jsstring" where
  "citationString Auto = lit ''auto''"
| "citationString Always = lit ''always''"
| "citationString Never = lit ''never''"

text \<open>The component's state: one field per \<open>useState\<close> cell that the operations touch.\<close>

record state =
  messages :: "ChatMessage list"
  input :: jsstring
  pendingFiles :: "File list"
  isSending :: bool
  systemPrompt :: jsstring
  tone :: Tone
  depth :: Depth
  citationMode :: CitationMode
  extractTables :: bool
  describeImages :: bool

section \<open>Attachments\<close>

definition acceptedFile :: "File \<Rightarrow> bool" where
  "acceptedFile f \<longleftrightarrow>
     (let isPdf = (type f = lit ''application/pdf'');
          isText = (type f = lit ''text/plain'');
          isImage = startsWith (type f) (lit ''image/'')
      in isPdf \<or> isText \<or> isImage)"

definition appendFiles :: "File list \<Rightarrow> state \<Rightarrow> state" where
  "appendFiles files st =
     (let valid = filter acceptedFile files
      in st\<lparr>pendingFiles := pendingFiles st @ valid\<rparr>)"

definition removePendingFile :: "jsstring \<Rightarrow> state \<Rightarrow> state" where
  "removePendingFile n st =
     st\<lparr>pendingFiles := filter (\<lambda>f. name f \<noteq> n) (pendingFiles st)\<rparr>"

definition clearChat :: "state \<Rightarrow> state" where
  "clearChat st = st\<lparr>messages := []\<rparr>"

section \<open>Errors\<close>

text \<open>
  What the \<open>catch\<close> clause can see of a thrown value: every value thrown inside
  \<open>sendMessage\<close> is an \<open>Error\<close> object (\<open>Error\<close>, \<open>TypeError\<close>, \<open>SyntaxError\<close>,
  \<open>DOMException\<close>), of which the clause reads the name and the message.
\<close>

record js_error =
  err_name :: jsstring
  err_message :: jsstring

definition new_Error :: "jsstring \<Rightarrow> js_error" where
  "new_Error m = \<lparr>err_name = lit ''Error'', err_message = m\<rparr>"

text \<open>\<open>String(err)\<close>, which is \<open>Error.prototype.toString\<close>.\<close>

definition errorToString :: "js_error \<Rightarrow> jsstring" where
  "errorToString e =
     (if err_name e = [] then err_message e
      else if err_message e = [] then err_name e
      else err_name e @ lit '': '' @ err_message e)"

text \<open>\<open>err?.message || String(err)\<close>: the empty string is falsy.\<close>

definition errorDetails :: "js_error \<Rightarrow> jsstring" where
  "errorDetails e = (if err_message e \<noteq> [] then err_message e else errorToString e)"

definition readFileAsDataURL :: "File \<Rightarrow> js_error + jsstring" where
  "readFileAsDataURL file =
     (case dataURL file of
        None \<Rightarrow> Inl (new_Error (lit ''File read error''))
      | Some result \<Rightarrow> Inr result)"

definition readFileAsText :: "File \<Rightarrow> js_error + jsstring" where
  "readFileAsText file =
     (case decodedText file of
        None \<Rightarrow> Inl (new_Error (lit ''File read error''))
      | Some result \<Rightarrow> Inr result)"

section \<open>The outside world\<close>

text \<open>
  The request body that is serialised and posted; the URL, the method and the headers
  are constants of the source. A \<open>fetch\<close> either rejects (network failure, or the abort
  after 120000 ms) or resolves with a response, whose body is read by \<open>resp.text()\<close> or
  \<open>resp.json()\<close>, each of which can reject in turn.
\<close>

record request =
  req_model :: jsstring
  req_messages :: "OpenRouterMessage list"

record response =
  status :: nat
  body_text :: "js_error + jsstring"
  body_json :: "js_error + json"

definition ok :: "response \<Rightarrow> bool" where
  "ok resp \<longleftrightarrow> 200 \<le> status resp \<and> status resp \<le> 299"

datatype fetch_result = Rejected js_error | Resolved response

text \<open>
  Everything \<open>sendMessage\<close> obtains from outside the component: the answer to the
  request, and the values of \<open>uid()\<close> and \<open>Date.now()\<close> for the two messages it creates.
  Every promise that \<open>sendMessage\<close> awaits is taken to settle: a file read ends in
  \<open>onload\<close> or \<open>onerror\<close>, a request and the read of a body resolve or reject.
\<close>

record env =
  fetch :: "request \<Rightarrow> fetch_result"
  uid_user :: jsstring
  now_user :: nat
  uid_reply :: jsstring
  now_reply :: nat

section \<open>Reading the reply\<close>

text \<open>
  Property access on a parsed JSON value; \<open>None\<close> is \<open>undefined\<close>. \<open>getProp\<close> is
  used for the names \<open>choices\<close>, \<open>message\<close> and \<open>content\<close> only, which no built-in
  prototype defines, so only an object's own properties can answer. \<open>getIndex0\<close> is the
  access \<open>[0]\<close>: the first element of an array, the first code unit of a string, the
  property \<open>"0"\<close> of an object.
\<close>

fun getProp :: "jsstring \<Rightarrow> json \<Rightarrow> json option" where
  "getProp k (JObj kvs) = map_of kvs k"
| "getProp k _ = None"

fun getIndex0 :: "json \<Rightarrow> json option" where
  "getIndex0 (JArr []) = None"
| "getIndex0 (JArr (x # _)) = Some x"
| "getIndex0 (JStr []) = None"
| "getIndex0 (JStr (c # _)) = Some (JStr [c])"
| "getIndex0 (JObj kvs) = map_of kvs (lit ''0'')"
| "getIndex0 _ = None"

text \<open>\<open>v?.p\<close> is \<open>undefined\<close> when \<open>v\<close> is \<open>null\<close> or \<open>undefined\<close>.\<close>

fun optChain :: "json option \<Rightarrow> (json \<Rightarrow> json option) \<Rightarrow> json option" where
  "optChain None access = None"
| "optChain (Some JNull) access = None"
| "optChain (Some v) access = access v"

text \<open>\<open>v ?? d\<close> is \<open>d\<close> when \<open>v\<close> is \<open>null\<close> or \<open>undefined\<close>.\<close>

fun nullishCoalesce :: "json option \<Rightarrow> json \<Rightarrow> json" where
  "nullishCoalesce None d = d"
| "nullishCoalesce (Some JNull) d = d"
| "nullishCoalesce (Some v) d = v"

definition firstChoiceContent :: "json \<Rightarrow> json option" where
  "firstChoiceContent data =
     optChain (optChain (optChain (optChain (Some data)
       (getProp (lit ''choices''))) getIndex0)
       (getProp (lit ''message''))) (getProp (lit ''content''))"

definition responseContent :: "json \<Rightarrow> json" where
  "responseContent data = nullishCoalesce (firstChoiceContent data) (JStr (lit ''(no response)''))"

section \<open>Assembling the current turn\<close>

definition boolString :: "bool \<Rightarrow> jsstring" where
  "boolString b = (if b then lit ''true'' else lit ''false'')"

definition controlDirectives :: "state \<Rightarrow> jsstring" where
  "controlDirectives st =
     join (lit '' | '')
       [lit ''Tone: '' @ toneString (tone st),
        lit ''Depth: '' @ depthString (depth st),
        lit ''Citations: '' @ citationString (citationMode st),
        lit ''ExtractTables: '' @ boolString (extractTables st),
        lit ''DescribeImages: '' @ boolString (describeImages st)]"

text \<open>The text of the first block when the user typed a request.\<close>

definition requestText :: "jsstring \<Rightarrow> jsstring \<Rightarrow> jsstring" where
  "requestText trimmed directives =
     lit ''User request:\<newline>'' @ trimmed @ lit ''\<newline>\<newline>'' @
     lit ''Assistant controls: '' @ directives @ lit ''\<newline>'' @
     lit ''Instructions:\<newline>'' @
     lit ''- If attachments contain tables, extract as Markdown tables and summarize insights.\<newline>'' @
     lit ''- If images/screenshots are attached, perform OCR-style reading and reconstruct tables when possible.\<newline>'' @
     lit ''- Ensure originality; avoid AI-sounding phrasing; cite sources if derived from attachments.\<newline>''"

text \<open>The text of the first block when only attachments are sent.\<close>

definition attachmentsOnlyText :: "jsstring \<Rightarrow> jsstring" where
  "attachmentsOnlyText directives =
     lit ''User sent attachments without a message.\<newline>'' @
     lit ''Assistant controls: '' @ directives @ lit ''\<newline>'' @
     lit ''Please extract, summarize, and provide structured insights. If tables are present, render them as Markdown tables.\<newline>''"

text \<open>The block that opens \<open>userBlocks\<close>.\<close>

definition firstBlock :: "state \<Rightarrow> OpenRouterContentBlock" where
  "firstBlock st =
     (let trimmed = trim (input st);
          hasInput = (length trimmed > 0);
          directives = controlDirectives st
      in if hasInput then Text (JStr (requestText trimmed directives))
         else Text (JStr (attachmentsOnlyText directives)))"

text \<open>
  The body of the loop over \<open>pendingFiles\<close>: the blocks pushed for one file, or the
  error of a rejected read. A file of any other type pushes nothing.
\<close>

definition fileBlocks :: "File \<Rightarrow> js_error + OpenRouterContentBlock list" where
  \<open>fileBlocks f =
     (if startsWith (type f) (lit ''image/'') then
        (case readFileAsDataURL f of
           Inl err \<Rightarrow> Inl err
         | Inr dataUrl \<Rightarrow>
             Inr [Image_url dataUrl,
                  Text (JStr (lit ''Attachment: Image "'' @ name f @
                              lit ''". If text or tables exist, extract them.''))])
      else if type f = lit ''application/pdf'' then
        (case readFileAsDataURL f of
           Inl err \<Rightarrow> Inl err
         | Inr dataUrl \<Rightarrow>
             Inr [File_block (name f) dataUrl,
                  Text (JStr (lit ''Attachment: PDF "'' @ name f @
                              lit ''". Read all pages. Extract tables and key sections.''))])
      else if type f = lit ''text/plain'' then
        (case readFileAsText f of
           Inl err \<Rightarrow> Inl err
         | Inr text \<Rightarrow>
             Inr [Text (JStr (lit ''Attachment: Text file "'' @ name f @ lit ''". Content below:\<newline>'' @
                              lit ''----- BEGIN '' @ name f @ lit '' -----\<newline>'' @
                              take 200000 text @
                              lit ''\<newline>----- END '' @ name f @ lit '' -----''))])
      else Inr [])\<close>

text \<open>
  The loop: files are read one after the other, and the first rejected read leaves
  the \<open>try\<close> block.
\<close>

fun attachmentBlocks ::
  "File list \<Rightarrow> OpenRouterContentBlock list \<Rightarrow> js_error + OpenRouterContentBlock list" where
  "attachmentBlocks [] userBlocks = Inr userBlocks"
| "attachmentBlocks (f # fs) userBlocks =
     (case fileBlocks f of
        Inl err \<Rightarrow> Inl err
      | Inr pushed \<Rightarrow> attachmentBlocks fs (userBlocks @ pushed))"

section \<open>Assembling the message sequence\<close>

definition buildHistory :: "state \<Rightarrow> OpenRouterContentBlock list \<Rightarrow> OpenRouterMessage list" where
  "buildHistory st userBlocks =
     (let history = [\<lparr>role = RSystem, content = [Text (JStr (systemPrompt st))]\<rparr>];
          recent = slice_last 12 (messages st);
          history = foldl (\<lambda>h m. h @ [\<lparr>role = openRouterRole (msg_role m),
                                        content = [Text (msg_text m)]\<rparr>]) history recent
      in history @ [\<lparr>role = RUser, content = userBlocks\<rparr>])"

section \<open>Sending\<close>

text \<open>
  What the code after \<open>fetch\<close> makes of its outcome: the text for the reply message,
  or the error thrown. A rejected \<open>fetch\<close> throws; a response that is not \<open>ok\<close> has
  its body read as text and thrown as an \<open>API error\<close>; an \<open>ok\<close> response has its body
  parsed, which can throw too.
\<close>

definition readReply :: "fetch_result \<Rightarrow> js_error + json" where
  "readReply outcome =
     (case outcome of
        Rejected err \<Rightarrow> Inl err
      | Resolved resp \<Rightarrow>
          if \<not> ok resp then
            (case body_text resp of
               Inl err \<Rightarrow> Inl err
             | Inr textErr \<Rightarrow>
                 Inl (new_Error (lit ''API error: '' @ decimal (status resp) @
                                 lit '' '' @ textErr)))
          else
            (case body_json resp of
               Inl err \<Rightarrow> Inl err
             | Inr data \<Rightarrow> Inr (responseContent data)))"

text \<open>
  The \<open>try\<close> block of \<open>sendMessage\<close>, over the values its closure captured: the
  text for the reply message, or the error thrown, together with the requests that were
  posted on the way.
\<close>

definition tryBlock :: "env \<Rightarrow> state \<Rightarrow> (js_error + json) \<times> request list" where
  "tryBlock env st =
     (case attachmentBlocks (pendingFiles st) [firstBlock st] of
        Inl err \<Rightarrow> (Inl err, [])
      | Inr userBlocks \<Rightarrow>
          (let req = \<lparr>req_model = lit ''openrouter/claude-sonnet-4'',
                      req_messages = buildHistory st userBlocks\<rparr>
           in (readReply (fetch env req), [req])))"

definition failurePrefix :: jsstring where
  "failurePrefix =
     lit ''I ran into an issue reaching the assistant service. Please try again. Details: ''"

text \<open>The state updates before the \<open>try\<close> block: the placeholder for the user's turn.\<close>

definition userMsg :: "env \<Rightarrow> state \<Rightarrow> ChatMessage" where
  "userMsg env st =
     (let trimmed = trim (input st)
      in \<lparr>msg_id = uid_user env, msg_role = User,
          msg_text = JStr (if length trimmed \<noteq> 0 then trimmed else lit ''(sent attachments)''),
          msg_ts = now_user env\<rparr>)"

definition beginSend :: "ChatMessage \<Rightarrow> state \<Rightarrow> state" where
  "beginSend m st = st\<lparr>messages := messages st @ [m], input := [], isSending := True\<rparr>"

text \<open>
  The state updates that end the call: the reply or the failure message is appended to
  the messages of that moment, then the \<open>finally\<close> clause runs.
\<close>

definition assistantMsg :: "env \<Rightarrow> js_error + json \<Rightarrow> ChatMessage" where
  "assistantMsg env result =
     (case result of
        Inr content' \<Rightarrow>
          \<lparr>msg_id = uid_reply env, msg_role = Assistant, msg_text = content',
           msg_ts = now_reply env\<rparr>
      | Inl err \<Rightarrow>
          \<lparr>msg_id = uid_reply env, msg_role = Assistant,
           msg_text = JStr (failurePrefix @ errorDetails err),
           msg_ts = now_reply env\<rparr>)"

definition settleSend :: "ChatMessage \<Rightarrow> state \<Rightarrow> state" where
  "settleSend m st = st\<lparr>messages := messages st @ [m], isSending := False, pendingFiles := []\<rparr>"

text \<open>
  \<open>sendMessage\<close>, run to its end with no other event handled in between: the state it
  leaves and the requests it posted.
\<close>

definition sendMessage :: "env \<Rightarrow> state \<Rightarrow> state \<times> request list" where
  "sendMessage env st =
     (let trimmed = trim (input st);
          hasInput = (length trimmed > 0);
          hasFiles = (length (pendingFiles st) > 0)
      in if \<not> hasInput \<and> \<not> hasFiles then (st, [])
         else
           (let (result, requests) = tryBlock env st
            in (settleSend (assistantMsg env result) (beginSend (userMsg env st) st), requests)))"

section \<open>The initial state and the events\<close>

text \<open>The template literal of \<open>DEFAULT_SYSTEM_PROMPT\<close>, before \<open>.trim()\<close>.\<close>

definition DEFAULT_SYSTEM_PROMPT_template :: jsstring where
  \<open>DEFAULT_SYSTEM_PROMPT_template =
       lit ''\<newline>'' @
       lit ''You are "Elroy" '' @ [0x2014] @ lit '' a senior generalist AI assistant built for expert-level coding, math, writing, and analysis.\<newline>'' @
       lit ''\<newline>'' @
       lit ''Core principles:\<newline>'' @
       lit ''- Originality & anti-plagiarism:\<newline>'' @
       lit ''  - Always produce original, human-sounding writing.\<newline>'' @
       lit ''  - Never copy text verbatim from provided materials unless explicitly asked; if quoting, keep it short and cite the source.\<newline>'' @
       lit ''  - When users provide documents (text, PDFs, screenshots), extract and understand them, then write in a natural, varied cadence with specific details and judicious structure.\<newline>'' @
       lit ''  - Avoid stock phrases and AI-sounding meta-comments (e.g., "As an AI model", "I cannot..."). Be direct, clear, and human.\<newline>'' @
       lit ''- Document understanding:\<newline>'' @
       lit ''  - If content contains tables, extract them faithfully as Markdown tables and explain key insights.\<newline>'' @
       lit ''  - If images/screenshots are provided, perform OCR-style reading and describe layout, text, and any tables; reconstruct tables when possible.\<newline>'' @
       lit ''- Coding:\<newline>'' @
       lit ''  - Provide concise, correct solutions; explain non-obvious steps; prioritize security and clarity; include runnable snippets where practical.\<newline>'' @
       lit ''- Math:\<newline>'' @
       lit ''  - Show your reasoning briefly and present a final, clearly boxed answer or a bulleted summary.\<newline>'' @
       lit ''- Essays & reports:\<newline>'' @
       lit ''  - Establish an appropriate thesis, structure, and flow. Use citations and references when users provide sources.\<newline>'' @
       lit ''- Style controls:\<newline>'' @
       lit ''  - Adapt to user-selected tone and depth. Avoid filler. Ask clarifying questions when the user'' @ [0x0027] @ lit ''s intent is ambiguous.\<newline>'' @
       lit ''\<newline>'' @
       lit ''Safety & compliance:\<newline>'' @
       lit ''- Do not produce disallowed content. If asked for risky actions, refuse and suggest safer alternatives.\<newline>'' @
       lit ''\<newline>'' @
       lit ''Output:\<newline>'' @
       lit ''- Use clear headings, bullets, and concise paragraphs. Prefer Markdown formatting for code blocks and tables.\<newline>''\<close>

definition DEFAULT_SYSTEM_PROMPT :: jsstring where
  "DEFAULT_SYSTEM_PROMPT = trim DEFAULT_SYSTEM_PROMPT_template"

definition initialState :: state where
  "initialState =
     \<lparr>messages = [], input = [], pendingFiles = [], isSending = False,
      systemPrompt = DEFAULT_SYSTEM_PROMPT, tone = Neutral, depth = Balanced,
      citationMode = Auto, extractTables = True, describeImages = True\<rparr>"

text \<open>
  The states the component can be in: every handler that writes one of the state cells
  is a step. A send is two steps, the updates made before its first \<open>await\<close> and the
  updates made when it settles, so that other events may fall in between.
\<close>

inductive reachable :: "state \<Rightarrow> bool" where
  initial: "reachable initialState"
| setInput: "reachable st \<Longrightarrow> reachable (st\<lparr>input := v\<rparr>)"
| setSystemPrompt: "reachable st \<Longrightarrow> reachable (st\<lparr>systemPrompt := v\<rparr>)"
| setTone: "reachable st \<Longrightarrow> reachable (st\<lparr>tone := t\<rparr>)"
| setDepth: "reachable st \<Longrightarrow> reachable (st\<lparr>depth := d\<rparr>)"
| setCitationMode: "reachable st \<Longrightarrow> reachable (st\<lparr>citationMode := c\<rparr>)"
| setExtractTables: "reachable st \<Longrightarrow> reachable (st\<lparr>extractTables := b\<rparr>)"
| setDescribeImages: "reachable st \<Longrightarrow> reachable (st\<lparr>describeImages := b\<rparr>)"
| appendFiles: "reachable st \<Longrightarrow> reachable (appendFiles files st)"
| removePendingFile: "reachable st \<Longrightarrow> reachable (removePendingFile n st)"
| clearChat: "reachable st \<Longrightarrow> reachable (clearChat st)"
| beginSend: "reachable st \<Longrightarrow> reachable (beginSend m st)"
| settleSend: "reachable st \<Longrightarrow> reachable (settleSend m st)"

section \<open>Vocabulary of the properties\<close>

text \<open>\<open>occursIn p s\<close>: the string \<open>p\<close> is a contiguous part of \<open>s\<close>.\<close>

fun occursIn :: "jsstring \<Rightarrow> jsstring \<Rightarrow> bool" where
  "occursIn p [] \<longleftrightarrow> p = []"
| "occursIn p (c # s) \<longleftrightarrow> startsWith (c # s) p \<or> occursIn p s"

text \<open>A list of content blocks carries a text when one of its text blocks contains it.\<close>

fun carries :: "OpenRouterContentBlock list \<Rightarrow> jsstring \<Rightarrow> bool" where
  "carries [] p \<longleftrightarrow> False"
| "carries (Text (JStr s) # bs) p \<longleftrightarrow> occursIn p s \<or> carries bs p"
| "carries (b # bs) p \<longleftrightarrow> carries bs p"

text \<open>
  A send fails with the error \<open>err\<close>: the read of a pending file is rejected, or the
  request it posts is rejected (a network failure, or the abort at the timeout), or is
  answered with a status outside 200..299 (the error is then the \<open>API error\<close> made
  from the status and the body, or the failure to read that body), or is answered with
  an \<open>ok\<close> status and a body that does not parse.
\<close>

definition sendFails :: "env \<Rightarrow> state \<Rightarrow> js_error \<Rightarrow> bool" where
  "sendFails env st err \<longleftrightarrow>
     list_ex (\<lambda>f. fileBlocks f = Inl err) (pendingFiles st) \<or>
     list_ex (\<lambda>req.
        case fetch env req of
          Rejected e \<Rightarrow> e = err
        | Resolved resp \<Rightarrow>
            if ok resp then body_json resp = Inl err
            else (case body_text resp of
                    Inl e \<Rightarrow> e = err
                  | Inr textErr \<Rightarrow>
                      err = new_Error (lit ''API error: '' @ decimal (status resp) @
                                       lit '' '' @ textErr)))
       (snd (sendMessage env st))"

text \<open>
  The read that a send makes of a file is not rejected: an image or a PDF is read as a
  data URL, a plain text file as text; a file of another type is not read at all.
\<close>

definition readable :: "File \<Rightarrow> bool" where
  "readable f \<longleftrightarrow>
     (if startsWith (type f) (lit ''image/'') \<or> type f = lit ''application/pdf''
      then dataURL f \<noteq> None
      else if type f = lit ''text/plain'' then decodedText f \<noteq> None
      else True)"

section \<open>Example inputs\<close>

definition ex_notes :: File where
  "ex_notes = \<lparr>name = lit ''notes.txt'', type = lit ''text/plain'',
     dataURL = Some (lit ''data:text/plain;base64,YWxwaGEgYmV0YQ==''),
     decodedText = Some (lit ''alpha beta'')\<rparr>"

definition ex_notes_other :: File where
  "ex_notes_other = \<lparr>name = lit ''notes.txt'', type = lit ''text/plain'',
     dataURL = Some (lit ''data:text/plain;base64,Z2FtbWE=''),
     decodedText = Some (lit ''gamma'')\<rparr>"

definition ex_scan :: File where
  "ex_scan = \<lparr>name = lit ''scan.png'', type = lit ''image/png'',
     dataURL = Some (lit ''data:image/png;base64,iVBORw0KGgo=''),
     decodedText = Some []\<rparr>"

definition ex_archive :: File where
  "ex_archive = \<lparr>name = lit ''old.zip'', type = lit ''application/zip'',
     dataURL = Some (lit ''data:application/zip;base64,UEsDBA==''),
     decodedText = Some []\<rparr>"

definition ex_unreadable :: File where
  "ex_unreadable = \<lparr>name = lit ''lost.pdf'', type = lit ''application/pdf'',
     dataURL = None, decodedText = None\<rparr>"

definition ex_prior :: "ChatMessage list" where
  "ex_prior =
     [\<lparr>msg_id = lit ''m1'', msg_role = User, msg_text = JStr (lit ''Hello''), msg_ts = 10\<rparr>,
      \<lparr>msg_id = lit ''m2'', msg_role = Assistant, msg_text = JStr (lit ''Hi''), msg_ts = 20\<rparr>]"

definition ex_state :: state where
  "ex_state =
     \<lparr>messages = ex_prior, input = lit ''  hi  '', pendingFiles = [], isSending = False,
      systemPrompt = lit ''Be brief.'', tone = Neutral, depth = Balanced,
      citationMode = Auto, extractTables = True, describeImages = True\<rparr>"

definition ex_blank :: state where
  "ex_blank = ex_state\<lparr>input := lit '' \<newline> ''\<rparr>"

definition ex_attach :: state where
  "ex_attach = ex_state\<lparr>input := lit '' '', pendingFiles := [ex_notes]\<rparr>"

definition ex_lost :: state where
  "ex_lost = ex_state\<lparr>pendingFiles := [ex_unreadable]\<rparr>"

definition ex_directives :: jsstring where
  "ex_directives =
     lit ''Tone: neutral | Depth: balanced | Citations: auto | ExtractTables: true | DescribeImages: true''"

definition ex_request :: "OpenRouterContentBlock list \<Rightarrow> request" where
  "ex_request blocks =
     \<lparr>req_model = lit ''openrouter/claude-sonnet-4'',
      req_messages =
        [\<lparr>role = RSystem, content = [Text (JStr (lit ''Be brief.''))]\<rparr>,
         \<lparr>role = RUser, content = [Text (JStr (lit ''Hello''))]\<rparr>,
         \<lparr>role = RAssistant, content = [Text (JStr (lit ''Hi''))]\<rparr>,
         \<lparr>role = RUser, content = blocks\<rparr>]\<rparr>"

definition ex_body_42 :: json where
  "ex_body_42 =
     JObj [(lit ''id'', JStr (lit ''gen-1'')),
           (lit ''choices'',
            JArr [JObj [(lit ''index'', JNum 0),
                        (lit ''message'',
                         JObj [(lit ''role'', JStr (lit ''assistant'')),
                               (lit ''content'', JStr (lit ''42''))])]])]"

definition ex_response_42 :: response where
  "ex_response_42 = \<lparr>status = 200, body_text = Inr [], body_json = Inr ex_body_42\<rparr>"

definition ex_response_empty :: response where
  "ex_response_empty = \<lparr>status = 200, body_text = Inr [], body_json = Inr (JObj [(lit ''choices'', JArr [])])\<rparr>"

definition ex_response_500 :: response where
  "ex_response_500 =
     \<lparr>status = 500, body_text = Inr (lit ''upstream down''),
      body_json = Inl \<lparr>err_name = lit ''SyntaxError'', err_message = lit ''Unexpected token u''\<rparr>\<rparr>"

definition ex_response_unparsable :: response where
  "ex_response_unparsable =
     \<lparr>status = 200, body_text = Inr [],
      body_json = Inl \<lparr>err_name = lit ''SyntaxError'',
                       err_message = lit ''Unexpected end of JSON input''\<rparr>\<rparr>"

definition ex_env :: "response \<Rightarrow> env" where
  "ex_env resp =
     \<lparr>fetch = (\<lambda>req. Resolved resp), uid_user = lit ''u1'', now_user = 30,
      uid_reply = lit ''a1'', now_reply = 40\<rparr>"

definition ex_turn :: "OpenRouterContentBlock list" where
  "ex_turn = [Text (JStr (requestText (lit ''hi'') ex_directives))]"

definition ex_state_formal :: state where
  "ex_state_formal =
     ex_state\<lparr>tone := Formal, depth := Detailed, citationMode := Never,
              extractTables := False, describeImages := False\<rparr>"

definition ex_notes_block :: OpenRouterContentBlock where
  \<open>ex_notes_block =
     Text (JStr (lit ''Attachment: Text file "notes.txt". Content below:\<newline>----- BEGIN notes.txt -----\<newline>alpha beta\<newline>----- END notes.txt -----''))\<close>

definition ex_attach_turn :: "OpenRouterContentBlock list" where
  "ex_attach_turn =
     [Text (JStr (lit ''User sent attachments without a message.\<newline>Assistant controls: Tone: neutral | Depth: balanced | Citations: auto | ExtractTables: true | DescribeImages: true\<newline>Please extract, summarize, and provide structured insights. If tables are present, render them as Markdown tables.\<newline>'')),
      ex_notes_block]"

section \<open>Auxiliary facts\<close>

subsection \<open>Trimming\<close>

lemma trim_decomposition:
  "\<exists>l r. s = l @ trim s @ r \<and> list_all isWhiteSpace l \<and> list_all isWhiteSpace r"
proof -
  define t where "t = dropWhile isWhiteSpace s"
  have s: "s = takeWhile isWhiteSpace s @ t"
    by (simp add: t_def)
  have "rev (dropWhile isWhiteSpace (rev t)) @ rev (takeWhile isWhiteSpace (rev t)) =
        rev (takeWhile isWhiteSpace (rev t) @ dropWhile isWhiteSpace (rev t))"
    by (simp only: rev_append)
  also have "\<dots> = t"
    by (simp only: takeWhile_dropWhile_id rev_rev_ident)
  finally have t: "t = trim s @ rev (takeWhile isWhiteSpace (rev t))"
    by (simp add: trim_def trimEnd_def trimStart_def t_def)
  have l: "list_all isWhiteSpace (takeWhile isWhiteSpace s)"
    by (simp add: list_all_iff) (meson set_takeWhileD)
  have r: "list_all isWhiteSpace (rev (takeWhile isWhiteSpace (rev t)))"
    by (simp add: list_all_iff) (meson set_takeWhileD)
  from s t have "s = takeWhile isWhiteSpace s @ trim s @ rev (takeWhile isWhiteSpace (rev t))"
    by simp
  with l r show ?thesis by blast
qed

lemma last_dropWhile: "dropWhile P xs \<noteq> [] \<Longrightarrow> last (dropWhile P xs) = last xs"
  by (induction xs) (auto split: if_splits)

lemma trim_ends:
  assumes "trim s \<noteq> []"
  shows "\<not> isWhiteSpace (hd (trim s))" and "\<not> isWhiteSpace (last (trim s))"
proof -
  define t where "t = dropWhile isWhiteSpace s"
  define u where "u = dropWhile isWhiteSpace (rev t)"
  have trim: "trim s = rev u"
    by (simp add: trim_def trimEnd_def trimStart_def t_def u_def)
  with assms have u: "u \<noteq> []" by simp
  then have t: "t \<noteq> []" by (auto simp: u_def)
  have "last (trim s) = hd u" using u by (simp add: trim last_rev)
  moreover have "\<not> isWhiteSpace (hd u)" using u unfolding u_def by (rule hd_dropWhile)
  ultimately show "\<not> isWhiteSpace (last (trim s))" by simp
  have "hd (trim s) = last u" using u by (simp add: trim hd_rev)
  also have "\<dots> = last (rev t)" using u unfolding u_def by (rule last_dropWhile)
  also have "\<dots> = hd t" using t by (simp add: last_rev)
  finally have "hd (trim s) = hd t" .
  moreover have "\<not> isWhiteSpace (hd t)" using t unfolding t_def by (rule hd_dropWhile)
  ultimately show "\<not> isWhiteSpace (hd (trim s))" by simp
qed

lemma trim_blank: "trim (lit '' \<newline> '') = []"
  by (simp add: trim_def trimEnd_def trimStart_def lit_def isWhiteSpace_def)

lemma trim_hi: "trim (lit ''  hi  '') = lit ''hi''"
  by (simp add: trim_def trimEnd_def trimStart_def lit_def isWhiteSpace_def)

subsection \<open>The loops\<close>

lemma foldl_push: "foldl (\<lambda>h m. h @ [g m]) h0 xs = h0 @ map g xs"
  by (induction xs arbitrary: h0) simp_all

lemma buildHistory_eq:
  "buildHistory st userBlocks =
     \<lparr>role = RSystem, content = [Text (JStr (systemPrompt st))]\<rparr> #
     map (\<lambda>m. \<lparr>role = openRouterRole (msg_role m), content = [Text (msg_text m)]\<rparr>)
       (slice_last 12 (messages st)) @
     [\<lparr>role = RUser, content = userBlocks\<rparr>]"
  by (simp add: buildHistory_def Let_def foldl_push)

lemma openRouterRole_not_system: "openRouterRole r \<noteq> RSystem"
  by (cases r) simp_all

lemma one_system_message:
  "length (filter (\<lambda>m. role m = RSystem) (buildHistory st blocks)) = 1"
  by (simp add: buildHistory_eq filter_map comp_def openRouterRole_not_system)

lemma length_buildHistory:
  "length (buildHistory st blocks) \<le> 14"
  by (simp add: buildHistory_eq slice_last_def)

lemma attachmentBlocks_extends:
  "attachmentBlocks fs userBlocks = Inr r \<Longrightarrow> \<exists>ext. r = userBlocks @ ext"
proof (induction fs arbitrary: userBlocks)
  case Nil
  then show ?case by simp
next
  case (Cons f fs)
  then show ?case by (fastforce split: sum.splits)
qed

lemma attachmentBlocks_contains:
  "attachmentBlocks fs userBlocks = Inr r \<Longrightarrow> f \<in> set fs \<Longrightarrow>
     \<exists>pushed. fileBlocks f = Inr pushed \<and> set pushed \<subseteq> set r"
proof (induction fs arbitrary: userBlocks)
  case Nil
  then show ?case by simp
next
  case (Cons g fs)
  from Cons.prems(1) obtain pushed where
    g: "fileBlocks g = Inr pushed" and
    rest: "attachmentBlocks fs (userBlocks @ pushed) = Inr r"
    by (auto split: sum.splits)
  show ?case
  proof (cases "f = g")
    case True
    from attachmentBlocks_extends [OF rest] obtain ext where "r = (userBlocks @ pushed) @ ext" ..
    with g True show ?thesis by auto
  next
    case False
    with Cons.prems(2) have "f \<in> set fs" by simp
    with Cons.IH [OF rest] show ?thesis .
  qed
qed

subsection \<open>The shape of a send\<close>

lemma sendMessage_guarded:
  "trim (input st) \<noteq> [] \<or> pendingFiles st \<noteq> [] \<Longrightarrow>
     sendMessage env st =
       (settleSend (assistantMsg env (fst (tryBlock env st))) (beginSend (userMsg env st) st),
        snd (tryBlock env st))"
  by (auto simp: sendMessage_def Let_def split: prod.splits)

lemma sendMessage_posted_guard:
  "snd (sendMessage env st) = [req] \<Longrightarrow> trim (input st) \<noteq> [] \<or> pendingFiles st \<noteq> []"
  by (auto simp: sendMessage_def Let_def split: if_splits)

lemma tryBlock_posted:
  "snd (tryBlock env st) = [req] \<Longrightarrow>
     \<exists>blocks. attachmentBlocks (pendingFiles st) [firstBlock st] = Inr blocks \<and>
       req = \<lparr>req_model = lit ''openrouter/claude-sonnet-4'',
              req_messages = buildHistory st blocks\<rparr> \<and>
       fst (tryBlock env st) = readReply (fetch env req)"
  by (auto simp: tryBlock_def Let_def split: sum.splits)

lemma tryBlock_at_most_one: "length (snd (tryBlock env st)) \<le> 1"
  by (simp add: tryBlock_def Let_def split: sum.splits)

lemma last_buildHistory:
  "last (buildHistory st blocks) = \<lparr>role = RUser, content = blocks\<rparr>"
  by (simp add: buildHistory_eq)

lemma sendMessage_posted:
  assumes "snd (sendMessage env st) = [req]"
  shows "\<exists>blocks. attachmentBlocks (pendingFiles st) [firstBlock st] = Inr blocks \<and>
           req = \<lparr>req_model = lit ''openrouter/claude-sonnet-4'',
                  req_messages = buildHistory st blocks\<rparr> \<and>
           fst (tryBlock env st) = readReply (fetch env req)"
proof -
  from assms have g: "trim (input st) \<noteq> [] \<or> pendingFiles st \<noteq> []"
    by (rule sendMessage_posted_guard)
  with assms have "snd (tryBlock env st) = [req]"
    by (simp add: sendMessage_guarded)
  then show ?thesis by (rule tryBlock_posted)
qed

lemma messages_sendMessage:
  "trim (input st) \<noteq> [] \<or> pendingFiles st \<noteq> [] \<Longrightarrow>
     messages (fst (sendMessage env st)) =
       messages st @ [userMsg env st, assistantMsg env (fst (tryBlock env st))]"
  by (simp add: sendMessage_guarded settleSend_def beginSend_def)

lemma sendMessage_requests:
  "snd (sendMessage env st) =
     (if trim (input st) = [] \<and> pendingFiles st = [] then [] else snd (tryBlock env st))"
  by (simp add: sendMessage_def Let_def split: prod.splits)

lemma tryBlock_member:
  assumes "req \<in> set (snd (tryBlock env st))"
  shows "fst (tryBlock env st) = readReply (fetch env req)"
proof (cases "attachmentBlocks (pendingFiles st) [firstBlock st]")
  case (Inl e)
  with assms show ?thesis by (simp add: tryBlock_def)
next
  case (Inr blocks)
  with assms show ?thesis by (simp add: tryBlock_def Let_def)
qed

subsection \<open>Sends whose reads succeed\<close>

lemma fileBlocks_readable:
  assumes "readable f"
  shows "\<exists>pushed. fileBlocks f = Inr pushed"
proof -
  have plain: "\<not> startsWith (lit ''text/plain'') (lit ''image/'')"
    "lit ''text/plain'' \<noteq> lit ''application/pdf''"
    by (simp_all add: startsWith_def lit_def)
  consider (as_url) "startsWith (type f) (lit ''image/'') \<or> type f = lit ''application/pdf''"
    | (as_text) "\<not> startsWith (type f) (lit ''image/'')" "type f \<noteq> lit ''application/pdf''"
        "type f = lit ''text/plain''"
    | (unread) "\<not> startsWith (type f) (lit ''image/'')" "type f \<noteq> lit ''application/pdf''"
        "type f \<noteq> lit ''text/plain''"
    by blast
  then show ?thesis
  proof cases
    case as_url
    with assms obtain d where "dataURL f = Some d"
      by (auto simp: readable_def)
    with as_url show ?thesis
      by (auto simp: fileBlocks_def readFileAsDataURL_def)
  next
    case as_text
    with assms plain obtain d where "decodedText f = Some d"
      by (auto simp: readable_def)
    with as_text show ?thesis
      by (simp add: fileBlocks_def readFileAsText_def)
  next
    case unread
    then show ?thesis by (simp add: fileBlocks_def)
  qed
qed

lemma attachmentBlocks_readable:
  "list_all readable fs \<Longrightarrow> \<exists>blocks. attachmentBlocks fs userBlocks = Inr blocks"
proof (induction fs arbitrary: userBlocks)
  case Nil
  then show ?case by simp
next
  case (Cons f fs)
  then have "readable f" and rest: "list_all readable fs" by simp_all
  from fileBlocks_readable [OF this(1)] obtain pushed where "fileBlocks f = Inr pushed" ..
  with Cons.IH [OF rest, of "userBlocks @ pushed"] show ?case by simp
qed

lemma posted_when_readable:
  assumes "trim (input st) \<noteq> [] \<or> pendingFiles st \<noteq> []"
    and "list_all readable (pendingFiles st)"
  shows "\<exists>req. snd (sendMessage env st) = [req]"
proof -
  from attachmentBlocks_readable [OF assms(2)] obtain blocks where
    "attachmentBlocks (pendingFiles st) [firstBlock st] = Inr blocks" ..
  with assms(1) show ?thesis
    by (simp add: sendMessage_requests tryBlock_def Let_def)
qed

subsection \<open>Accepted files\<close>

lemma acceptedFile_iff:
  "acceptedFile f \<longleftrightarrow>
     type f = lit ''application/pdf'' \<or> type f = lit ''text/plain'' \<or>
     startsWith (type f) (lit ''image/'')"
  by (simp add: acceptedFile_def)

lemma reachable_pending_accepted:
  "reachable st \<Longrightarrow> list_all acceptedFile (pendingFiles st)"
  by (induction rule: reachable.induct)
    (auto simp: initialState_def appendFiles_def removePendingFile_def clearChat_def
      beginSend_def settleSend_def list_all_iff)

lemma reachable_sendMessage:
  assumes "reachable st"
  shows "reachable (fst (sendMessage env st))"
proof (cases "trim (input st) = [] \<and> pendingFiles st = []")
  case True
  with assms show ?thesis by (simp add: sendMessage_def)
next
  case False
  then have "fst (sendMessage env st) =
      settleSend (assistantMsg env (fst (tryBlock env st))) (beginSend (userMsg env st) st)"
    by (simp add: sendMessage_guarded)
  with assms show ?thesis
    by (simp add: reachable.beginSend reachable.settleSend)
qed

lemma fileBlocks_other_type:
  "\<not> acceptedFile f \<Longrightarrow> fileBlocks f = Inr []"
  by (simp add: acceptedFile_iff fileBlocks_def)

subsection \<open>Failures\<close>

lemma fileBlocks_error:
  "fileBlocks f = Inl e \<Longrightarrow> e = new_Error (lit ''File read error'')"
  by (auto simp: fileBlocks_def readFileAsDataURL_def readFileAsText_def
      split: if_splits option.splits)

lemma attachmentBlocks_error:
  "attachmentBlocks fs userBlocks = Inl e \<Longrightarrow> \<exists>f \<in> set fs. fileBlocks f = Inl e"
  by (induction fs arbitrary: userBlocks) (auto split: sum.splits)

lemma attachmentBlocks_rejected:
  "f \<in> set fs \<Longrightarrow> fileBlocks f = Inl e \<Longrightarrow> \<exists>e'. attachmentBlocks fs userBlocks = Inl e'"
proof (induction fs arbitrary: userBlocks)
  case Nil
  then show ?case by simp
next
  case (Cons g fs)
  show ?case
  proof (cases "fileBlocks g")
    case (Inl e')
    then show ?thesis by simp
  next
    case (Inr pushed)
    with Cons.prems have "f \<in> set fs" by auto
    from Cons.IH [OF this Cons.prems(2)] Inr show ?thesis by simp
  qed
qed

lemma readReply_error:
  assumes "case outcome of
          Rejected e \<Rightarrow> e = err
        | Resolved resp \<Rightarrow>
            if ok resp then body_json resp = Inl err
            else (case body_text resp of
                    Inl e \<Rightarrow> e = err
                  | Inr textErr \<Rightarrow>
                      err = new_Error (lit ''API error: '' @ decimal (status resp) @
                                       lit '' '' @ textErr))"
  shows "readReply outcome = Inl err"
proof (cases outcome)
  case (Rejected e)
  with assms show ?thesis by (simp add: readReply_def)
next
  case (Resolved resp)
  show ?thesis
  proof (cases "ok resp")
    case True
    with assms Resolved show ?thesis by (simp add: readReply_def)
  next
    case False
    with assms Resolved show ?thesis
      by (cases "body_text resp") (simp_all add: readReply_def)
  qed
qed

lemma sendFails_throws:
  assumes "sendFails env st err"
  shows "(trim (input st) \<noteq> [] \<or> pendingFiles st \<noteq> []) \<and> fst (tryBlock env st) = Inl err"
proof -
  let ?thrown = "\<lambda>req. case fetch env req of
          Rejected e \<Rightarrow> e = err
        | Resolved resp \<Rightarrow>
            if ok resp then body_json resp = Inl err
            else (case body_text resp of
                    Inl e \<Rightarrow> e = err
                  | Inr textErr \<Rightarrow>
                      err = new_Error (lit ''API error: '' @ decimal (status resp) @
                                       lit '' '' @ textErr))"
  from assms have
    "(\<exists>f \<in> set (pendingFiles st). fileBlocks f = Inl err) \<or>
     (\<exists>req \<in> set (snd (sendMessage env st)). ?thrown req)"
    by (simp only: sendFails_def list_ex_iff)
  then show ?thesis
  proof
    assume "\<exists>f \<in> set (pendingFiles st). fileBlocks f = Inl err"
    then obtain f where f: "f \<in> set (pendingFiles st)" "fileBlocks f = Inl err" ..
    then have g: "pendingFiles st \<noteq> []" by auto
    from attachmentBlocks_rejected [OF f] obtain e' where
      e': "attachmentBlocks (pendingFiles st) [firstBlock st] = Inl e'" ..
    from attachmentBlocks_error [OF e'] obtain f' where "fileBlocks f' = Inl e'" ..
    then have "e' = new_Error (lit ''File read error'')" by (rule fileBlocks_error)
    moreover from f(2) have "err = new_Error (lit ''File read error'')" by (rule fileBlocks_error)
    ultimately have "e' = err" by simp
    with e' g show ?thesis by (simp add: tryBlock_def)
  next
    assume "\<exists>req \<in> set (snd (sendMessage env st)). ?thrown req"
    then obtain req where req: "req \<in> set (snd (sendMessage env st))" and thrown: "?thrown req" ..
    from req have g: "trim (input st) \<noteq> [] \<or> pendingFiles st \<noteq> []"
      by (auto simp: sendMessage_requests split: if_splits)
    with req have "req \<in> set (snd (tryBlock env st))"
      by (auto simp: sendMessage_requests)
    then have "fst (tryBlock env st) = readReply (fetch env req)"
      by (rule tryBlock_member)
    also from thrown have "\<dots> = Inl err"
      by (rule readReply_error)
    finally show ?thesis using g by simp
  qed
qed

lemma throws_sendFails:
  assumes "trim (input st) \<noteq> [] \<or> pendingFiles st \<noteq> []"
    and "fst (tryBlock env st) = Inl err"
  shows "sendFails env st err"
proof (cases "attachmentBlocks (pendingFiles st) [firstBlock st]")
  case (Inl e)
  with assms(2) have "e = err" by (simp add: tryBlock_def)
  with Inl attachmentBlocks_error [of "pendingFiles st" "[firstBlock st]" err]
  show ?thesis by (simp add: sendFails_def list_ex_iff)
next
  case (Inr blocks)
  let ?req = "\<lparr>req_model = lit ''openrouter/claude-sonnet-4'',
                req_messages = buildHistory st blocks\<rparr>"
  from Inr assms(1) have p: "snd (sendMessage env st) = [?req]"
    by (simp add: sendMessage_requests tryBlock_def Let_def)
  from Inr assms(2) have r: "readReply (fetch env ?req) = Inl err"
    by (simp add: tryBlock_def Let_def)
  have "case fetch env ?req of
          Rejected e \<Rightarrow> e = err
        | Resolved resp \<Rightarrow>
            if ok resp then body_json resp = Inl err
            else (case body_text resp of
                    Inl e \<Rightarrow> e = err
                  | Inr textErr \<Rightarrow>
                      err = new_Error (lit ''API error: '' @ decimal (status resp) @
                                       lit '' '' @ textErr))"
  proof (cases "fetch env ?req")
    case (Rejected e)
    with r show ?thesis by (simp add: readReply_def)
  next
    case (Resolved resp)
    show ?thesis
    proof (cases "ok resp")
      case True
      with r Resolved show ?thesis
        by (cases "body_json resp") (simp_all add: readReply_def)
    next
      case False
      with r Resolved show ?thesis
        by (cases "body_text resp") (auto simp: readReply_def)
    qed
  qed
  with p show ?thesis by (simp add: sendFails_def)
qed

subsection \<open>Where the directives travel\<close>

lemma occursIn_middle: "occursIn p (a @ p @ b)"
proof (induction a)
  case Nil
  show ?case
  proof (cases "p @ b")
    case Nil
    then show ?thesis by simp
  next
    case (Cons c s)
    have "startsWith (p @ b) p" by (simp add: startsWith_def)
    with Cons show ?thesis by simp
  qed
next
  case (Cons x a)
  then show ?case by simp
qed

lemma firstBlock_directives:
  "\<exists>t. firstBlock st = Text (JStr t) \<and> occursIn (controlDirectives st) t"
proof (cases "0 < length (trim (input st))")
  case True
  have "requestText (trim (input st)) (controlDirectives st) =
      (lit ''User request:\<newline>'' @ trim (input st) @ lit ''\<newline>\<newline>'' @
       lit ''Assistant controls: '') @ controlDirectives st @
      (lit ''\<newline>'' @
       lit ''Instructions:\<newline>'' @
       lit ''- If attachments contain tables, extract as Markdown tables and summarize insights.\<newline>'' @
       lit ''- If images/screenshots are attached, perform OCR-style reading and reconstruct tables when possible.\<newline>'' @
       lit ''- Ensure originality; avoid AI-sounding phrasing; cite sources if derived from attachments.\<newline>'')"
    by (simp add: requestText_def)
  then have "occursIn (controlDirectives st) (requestText (trim (input st)) (controlDirectives st))"
    by (simp only: occursIn_middle)
  with True show ?thesis by (simp add: firstBlock_def Let_def)
next
  case False
  have "attachmentsOnlyText (controlDirectives st) =
      (lit ''User sent attachments without a message.\<newline>'' @
       lit ''Assistant controls: '') @ controlDirectives st @
      (lit ''\<newline>'' @
       lit ''Please extract, summarize, and provide structured insights. If tables are present, render them as Markdown tables.\<newline>'')"
    by (simp add: attachmentsOnlyText_def)
  then have "occursIn (controlDirectives st) (attachmentsOnlyText (controlDirectives st))"
    by (simp only: occursIn_middle)
  with False show ?thesis by (simp add: firstBlock_def Let_def)
qed

lemma posted_without_files:
  assumes "pendingFiles st = []" and "trim (input st) \<noteq> []"
  shows "snd (sendMessage env st) =
     [\<lparr>req_model = lit ''openrouter/claude-sonnet-4'',
       req_messages = buildHistory st [firstBlock st]\<rparr>]"
  using assms by (simp add: sendMessage_requests tryBlock_def Let_def)

lemma hd_buildHistory:
  "hd (buildHistory st blocks) = \<lparr>role = RSystem, content = [Text (JStr (systemPrompt st))]\<rparr>"
  by (simp add: buildHistory_eq)

subsection \<open>Reading the reply\<close>

lemma firstChoiceContent_shape:
  assumes "map_of props (lit ''choices'') = Some (JArr (JObj choice # others))"
    and "map_of choice (lit ''message'') = Some (JObj message)"
  shows "firstChoiceContent (JObj props) = map_of message (lit ''content'')"
  using assms by (simp add: firstChoiceContent_def)

lemma firstChoiceContent_no_choices:
  "map_of props (lit ''choices'') = None \<Longrightarrow> firstChoiceContent (JObj props) = None"
  by (simp add: firstChoiceContent_def)

lemma firstChoiceContent_no_first:
  "map_of props (lit ''choices'') = Some (JArr []) \<Longrightarrow> firstChoiceContent (JObj props) = None"
  by (simp add: firstChoiceContent_def)

lemma firstChoiceContent_no_message:
  assumes "map_of props (lit ''choices'') = Some (JArr (JObj choice # others))"
    and "map_of choice (lit ''message'') = None"
  shows "firstChoiceContent (JObj props) = None"
  using assms by (simp add: firstChoiceContent_def)

lemma responseContent_absent:
  "firstChoiceContent data = None \<or> firstChoiceContent data = Some JNull \<Longrightarrow>
     responseContent data = JStr (lit ''(no response)'')"
  by (auto simp: responseContent_def)

lemma responseContent_present:
  "firstChoiceContent data = Some v \<Longrightarrow> v \<noteq> JNull \<Longrightarrow> responseContent data = v"
  by (cases v) (simp_all add: responseContent_def)

lemma readReply_parsed:
  "ok resp \<Longrightarrow> body_json resp = Inr data \<Longrightarrow>
     readReply (Resolved resp) = Inr (responseContent data)"
  by (simp add: readReply_def)

subsection \<open>The example send\<close>

lemma ex_controlDirectives: "controlDirectives ex_state = ex_directives"
  by (simp add: controlDirectives_def ex_state_def ex_directives_def boolString_def lit_def)

lemma ex_trim: "trim (input ex_state) = lit ''hi''"
  by (simp add: ex_state_def trim_hi)

lemma ex_firstBlock: "[firstBlock ex_state] = ex_turn"
proof -
  have "0 < length (lit ''hi'')" by (simp add: lit_def)
  then show ?thesis
    by (simp add: firstBlock_def Let_def ex_trim ex_controlDirectives ex_turn_def)
qed

lemma ex_buildHistory: "buildHistory ex_state blocks = req_messages (ex_request blocks)"
  by (simp add: buildHistory_eq slice_last_def ex_state_def ex_prior_def ex_request_def)

lemma ex_tryBlock:
  "tryBlock (ex_env resp) ex_state = (readReply (Resolved resp), [ex_request ex_turn])"
proof -
  have "pendingFiles ex_state = []" by (simp add: ex_state_def)
  then have "tryBlock (ex_env resp) ex_state =
    (readReply (Resolved resp),
     [\<lparr>req_model = lit ''openrouter/claude-sonnet-4'',
       req_messages = buildHistory ex_state ex_turn\<rparr>])"
    by (simp add: tryBlock_def Let_def ex_firstBlock ex_env_def)
  then show ?thesis
    by (simp add: ex_buildHistory) (simp add: ex_request_def)
qed

lemma ex_guard: "trim (input ex_state) \<noteq> [] \<or> pendingFiles ex_state \<noteq> []"
  by (simp add: ex_trim) (simp add: lit_def)

lemma ex_posted: "snd (sendMessage (ex_env resp) ex_state) = [ex_request ex_turn]"
  using ex_guard by (simp add: sendMessage_guarded ex_tryBlock)

lemma ex_reply:
  "messages (fst (sendMessage (ex_env resp) ex_state)) =
     ex_prior @ [userMsg (ex_env resp) ex_state, assistantMsg (ex_env resp) (readReply (Resolved resp))]"
  using ex_guard by (simp add: messages_sendMessage ex_tryBlock) (simp add: ex_state_def)

lemma ex_fetch: "fetch (ex_env resp) req = Resolved resp"
  by (simp add: ex_env_def)

lemma ex_attach_trim: "trim (input ex_attach) = []"
  by (simp add: ex_attach_def trim_def trimEnd_def trimStart_def lit_def isWhiteSpace_def)

lemma ex_attach_pending: "pendingFiles ex_attach = [ex_notes]"
  by (simp add: ex_attach_def)

lemma ex_attach_readable: "list_all readable (pendingFiles ex_attach)"
  by (simp add: ex_attach_pending readable_def ex_notes_def startsWith_def lit_def)

lemma ex_notes_fileBlocks: "fileBlocks ex_notes = Inr [ex_notes_block]"
  by (simp add: fileBlocks_def readFileAsText_def ex_notes_def ex_notes_block_def
      startsWith_def lit_def)

lemma ex_attach_directives: "controlDirectives ex_attach = ex_directives"
  by (simp add: controlDirectives_def ex_attach_def ex_state_def ex_directives_def
      boolString_def lit_def)

lemma ex_attach_firstBlock:
  "firstBlock ex_attach = hd ex_attach_turn"
  by (simp add: firstBlock_def Let_def ex_attach_trim ex_attach_directives ex_attach_turn_def
      attachmentsOnlyText_def ex_directives_def lit_def)

lemma ex_attach_buildHistory:
  "buildHistory ex_attach blocks = req_messages (ex_request blocks)"
  by (simp add: buildHistory_eq slice_last_def ex_attach_def ex_state_def ex_prior_def
      ex_request_def)

lemma ex_attach_posted:
  "snd (sendMessage (ex_env resp) ex_attach) = [ex_request ex_attach_turn]"
proof -
  have "attachmentBlocks (pendingFiles ex_attach) [firstBlock ex_attach] = Inr ex_attach_turn"
    by (simp add: ex_attach_pending ex_notes_fileBlocks ex_attach_firstBlock ex_attach_turn_def)
  then have "snd (sendMessage (ex_env resp) ex_attach) =
      [\<lparr>req_model = lit ''openrouter/claude-sonnet-4'',
        req_messages = buildHistory ex_attach ex_attach_turn\<rparr>]"
    by (simp add: sendMessage_requests tryBlock_def Let_def ex_attach_pending)
  then show ?thesis
    by (simp add: ex_attach_buildHistory) (simp add: ex_request_def)
qed

section \<open>Properties\<close>

text \<open>
  C6. When the input is empty after trimming and no attachment is pending, a send does
  nothing: the state (messages, pending attachments, input text, sending flag and all
  the rest) is returned as it was, and no request is posted.
\<close>

theorem send_is_noop_when_empty:
  "trim (input st) = [] \<Longrightarrow> pendingFiles st = [] \<Longrightarrow> sendMessage env st = (st, [])"
  by (simp add: sendMessage_def)

theorem send_is_noop_when_empty_witness:
  "trim (input ex_blank) = [] \<and> pendingFiles ex_blank = [] \<and>
   sendMessage (ex_env ex_response_42) ex_blank = (ex_blank, [])"
proof -
  have i: "trim (input ex_blank) = []"
    by (simp add: ex_blank_def trim_blank)
  have p: "pendingFiles ex_blank = []"
    by (simp add: ex_blank_def ex_state_def)
  from i p send_is_noop_when_empty [OF i p] show ?thesis by simp
qed

text \<open>
  C8. Clearing the conversation empties the message sequence and leaves every behaviour
  setting (tone, depth, citation mode, the two toggles, the system prompt) and the
  pending attachments as they were.
\<close>

theorem clearChat_keeps_settings:
  "messages (clearChat st) = [] \<and>
   tone (clearChat st) = tone st \<and>
   depth (clearChat st) = depth st \<and>
   citationMode (clearChat st) = citationMode st \<and>
   extractTables (clearChat st) = extractTables st \<and>
   describeImages (clearChat st) = describeImages st \<and>
   systemPrompt (clearChat st) = systemPrompt st \<and>
   pendingFiles (clearChat st) = pendingFiles st"
  by (simp add: clearChat_def)

text \<open>
  C5. After a send that passes the emptiness guard, whatever the outcome of the reads
  and of the request, no attachment is pending and the sending flag is off. The same
  holds when other events were handled while the send was in flight: the updates that
  end a send leave any state with no pending attachment and the flag off.
\<close>

theorem send_clears_pending_and_flag:
  "trim (input st) \<noteq> [] \<or> pendingFiles st \<noteq> [] \<Longrightarrow>
     pendingFiles (fst (sendMessage env st)) = [] \<and> isSending (fst (sendMessage env st)) = False \<and>
     pendingFiles (settleSend reply st') = [] \<and> isSending (settleSend reply st') = False"
  by (simp add: sendMessage_guarded settleSend_def)

theorem send_clears_pending_and_flag_witness:
  "pendingFiles ex_lost \<noteq> [] \<and>
   pendingFiles (fst (sendMessage (ex_env ex_response_42) ex_lost)) = [] \<and>
   isSending (fst (sendMessage (ex_env ex_response_42) ex_lost)) = False \<and>
   trim (input ex_state) \<noteq> [] \<and>
   pendingFiles (fst (sendMessage (ex_env ex_response_500) ex_state)) = [] \<and>
   isSending (fst (sendMessage (ex_env ex_response_500) ex_state)) = False"
proof -
  have a: "pendingFiles ex_lost \<noteq> []"
    by (simp add: ex_lost_def)
  have b: "trim (input ex_state) \<noteq> []"
    by (simp add: ex_state_def trim_hi) (simp add: lit_def)
  from a have a': "trim (input ex_lost) \<noteq> [] \<or> pendingFiles ex_lost \<noteq> []" ..
  from b have b': "trim (input ex_state) \<noteq> [] \<or> pendingFiles ex_state \<noteq> []" ..
  from a b send_clears_pending_and_flag [OF a', of "ex_env ex_response_42"]
    send_clears_pending_and_flag [OF b', of "ex_env ex_response_500"]
  show ?thesis by simp
qed

text \<open>
  C9. Removing a pending attachment goes by file name alone: what remains is the
  pending list without the files of that name, in the original order. Every file of
  that name is gone (two different files of one name both go), every file of another
  name stays.
\<close>

theorem removePendingFile_by_name:
  "pendingFiles (removePendingFile n st) = filter (\<lambda>f. name f \<noteq> n) (pendingFiles st) \<and>
   (\<forall>f \<in> set (pendingFiles st).
      if name f = n then f \<notin> set (pendingFiles (removePendingFile n st))
      else f \<in> set (pendingFiles (removePendingFile n st))) \<and>
   set (pendingFiles (removePendingFile n st)) \<subseteq> set (pendingFiles st)"
  by (auto simp: removePendingFile_def)

theorem removePendingFile_by_name_witness:
  "ex_notes \<noteq> ex_notes_other \<and>
   pendingFiles (removePendingFile (lit ''notes.txt'')
     (ex_state\<lparr>pendingFiles := [ex_scan, ex_notes, ex_unreadable, ex_notes_other]\<rparr>)) =
   [ex_scan, ex_unreadable]"
  using removePendingFile_by_name [of "lit ''notes.txt''"
      "ex_state\<lparr>pendingFiles := [ex_scan, ex_notes, ex_unreadable, ex_notes_other]\<rparr>"]
  by (simp add: ex_notes_def ex_notes_other_def ex_scan_def ex_unreadable_def lit_def)

text \<open>
  C7. Accepting selected or dropped files appends to the pending list exactly the files
  whose declared media type is \<open>application/pdf\<close>, \<open>text/plain\<close> or starts with
  \<open>image/\<close>, in their order; the others are dropped there and then. Hence in every
  state the component can reach, every pending file has one of these types. A file of
  another type would add no block to a payload either.
\<close>

theorem unsupported_types_dropped_at_acceptance:
  "pendingFiles (appendFiles files st) =
     pendingFiles st @
     filter (\<lambda>f. type f = lit ''application/pdf'' \<or> type f = lit ''text/plain'' \<or>
                 startsWith (type f) (lit ''image/'')) files \<and>
   (reachable st \<longrightarrow>
      (\<forall>f \<in> set (pendingFiles st).
         type f = lit ''application/pdf'' \<or> type f = lit ''text/plain'' \<or>
         startsWith (type f) (lit ''image/''))) \<and>
   (type g \<noteq> lit ''application/pdf'' \<and> type g \<noteq> lit ''text/plain'' \<and>
    \<not> startsWith (type g) (lit ''image/'') \<longrightarrow> fileBlocks g = Inr [])"
proof (intro conjI)
  show "pendingFiles (appendFiles files st) =
     pendingFiles st @
     filter (\<lambda>f. type f = lit ''application/pdf'' \<or> type f = lit ''text/plain'' \<or>
                 startsWith (type f) (lit ''image/'')) files"
    by (simp add: appendFiles_def Let_def acceptedFile_iff [abs_def])
  show "reachable st \<longrightarrow>
      (\<forall>f \<in> set (pendingFiles st).
         type f = lit ''application/pdf'' \<or> type f = lit ''text/plain'' \<or>
         startsWith (type f) (lit ''image/''))"
    using reachable_pending_accepted [of st]
    by (simp add: list_all_iff acceptedFile_iff)
  show "type g \<noteq> lit ''application/pdf'' \<and> type g \<noteq> lit ''text/plain'' \<and>
    \<not> startsWith (type g) (lit ''image/'') \<longrightarrow> fileBlocks g = Inr []"
    using fileBlocks_other_type [of g] by (simp add: acceptedFile_iff)
qed

theorem unsupported_types_dropped_at_acceptance_witness:
  "reachable (appendFiles [ex_scan, ex_archive, ex_notes] initialState) \<and>
   pendingFiles (appendFiles [ex_scan, ex_archive, ex_notes] initialState) = [ex_scan, ex_notes] \<and>
   pendingFiles (appendFiles [ex_archive] (appendFiles [ex_scan, ex_archive, ex_notes] initialState)) =
     [ex_scan, ex_notes] \<and>
   fileBlocks ex_archive = Inr []"
proof -
  have r: "reachable (appendFiles [ex_scan, ex_archive, ex_notes] initialState)"
    by (rule reachable.appendFiles) (rule reachable.initial)
  have types:
    "type ex_scan = lit ''image/png''" "type ex_archive = lit ''application/zip''"
    "type ex_notes = lit ''text/plain''"
    by (simp_all add: ex_scan_def ex_archive_def ex_notes_def)
  have lits:
    "startsWith (lit ''image/png'') (lit ''image/'')"
    "\<not> startsWith (lit ''application/zip'') (lit ''image/'')"
    "lit ''application/zip'' \<noteq> lit ''application/pdf''"
    "lit ''application/zip'' \<noteq> lit ''text/plain''"
    by (simp_all add: startsWith_def lit_def)
  have p: "pendingFiles initialState = []"
    by (simp add: initialState_def)
  from r unsupported_types_dropped_at_acceptance [of "[ex_scan, ex_archive, ex_notes]" initialState]
    unsupported_types_dropped_at_acceptance [of "[ex_archive]"
      "appendFiles [ex_scan, ex_archive, ex_notes] initialState" ex_archive]
  show ?thesis
    by (simp add: types lits p)
qed

text \<open>
  C4. For a \<open>text/plain\<close> attachment whose read succeeds, one text block is emitted:
  a heading line and a BEGIN line, both with the file name, then the decoded text cut
  to its first 200000 code units (the whole text when it has no more than that), then
  an END line with the file name. A send with the file pending, when none of its reads
  is rejected, posts a request, and the block is part of the user-role message that
  ends it.
\<close>

theorem text_attachment_truncated:
  assumes "type f = lit ''text/plain''" and "decodedText f = Some t"
  shows \<open>\<exists>body block.
     block =
       Text (JStr (lit ''Attachment: Text file "'' @ name f @ lit ''". Content below:\<newline>'' @
                   lit ''----- BEGIN '' @ name f @ lit '' -----\<newline>'' @
                   body @
                   lit ''\<newline>----- END '' @ name f @ lit '' -----'')) \<and>
     fileBlocks f = Inr [block] \<and>
     body = take (length body) t \<and>
     length body = min 200000 (length t) \<and>
     (length t \<le> 200000 \<longrightarrow> body = t) \<and>
     (\<forall>env st req. f \<in> set (pendingFiles st) \<and> snd (sendMessage env st) = [req] \<longrightarrow>
        block \<in> set (content (last (req_messages req)))) \<and>
     (\<forall>env st. f \<in> set (pendingFiles st) \<and> list_all readable (pendingFiles st) \<longrightarrow>
        (\<exists>req. snd (sendMessage env st) = [req] \<and>
               role (last (req_messages req)) = RUser \<and>
               block \<in> set (content (last (req_messages req)))))\<close>
proof -
  define block where
    \<open>block =
       Text (JStr (lit ''Attachment: Text file "'' @ name f @ lit ''". Content below:\<newline>'' @
                   lit ''----- BEGIN '' @ name f @ lit '' -----\<newline>'' @
                   take 200000 t @
                   lit ''\<newline>----- END '' @ name f @ lit '' -----''))\<close>
  have "\<not> startsWith (lit ''text/plain'') (lit ''image/'')"
    and "lit ''text/plain'' \<noteq> lit ''application/pdf''"
    by (simp_all add: startsWith_def lit_def)
  with assms have blocks: "fileBlocks f = Inr [block]"
    by (simp add: fileBlocks_def readFileAsText_def block_def)
  have prefix: "take 200000 t = take (length (take 200000 t)) t"
    by (simp add: min_def)
  have len: "length (take 200000 t) = min 200000 (length t)"
    by (simp add: min_def)
  have short: "length t \<le> 200000 \<longrightarrow> take 200000 t = t"
    by simp
  have sent: "block \<in> set (content (last (req_messages req)))"
    and user: "role (last (req_messages req)) = RUser"
    if "f \<in> set (pendingFiles st)" and "snd (sendMessage env st) = [req]" for env st req
  proof -
    from sendMessage_posted [OF that(2)] obtain userBlocks where
      ub: "attachmentBlocks (pendingFiles st) [firstBlock st] = Inr userBlocks" and
      req: "req_messages req = buildHistory st userBlocks"
      by auto
    from attachmentBlocks_contains [OF ub that(1)] blocks
    have "block \<in> set userBlocks" by auto
    with req show "block \<in> set (content (last (req_messages req)))"
      by (simp add: last_buildHistory)
    from req show "role (last (req_messages req)) = RUser"
      by (simp add: last_buildHistory)
  qed
  have posted: "\<exists>req. snd (sendMessage env st) = [req] \<and>
               role (last (req_messages req)) = RUser \<and>
               block \<in> set (content (last (req_messages req)))"
    if "f \<in> set (pendingFiles st)" and "list_all readable (pendingFiles st)" for env st
  proof -
    from that(1) have "trim (input st) \<noteq> [] \<or> pendingFiles st \<noteq> []" by auto
    from posted_when_readable [OF this that(2)] obtain req where
      "snd (sendMessage env st) = [req]" ..
    with sent [OF that(1)] user [OF that(1)] show ?thesis by blast
  qed
  from block_def blocks prefix len short sent posted show ?thesis by blast
qed


theorem text_attachment_truncated_witness:
  \<open>type ex_notes = lit ''text/plain'' \<and> decodedText ex_notes = Some (lit ''alpha beta'') \<and>
   fileBlocks ex_notes =
     Inr [Text (JStr (lit ''Attachment: Text file "notes.txt". Content below:\<newline>----- BEGIN notes.txt -----\<newline>alpha beta\<newline>----- END notes.txt -----''))] \<and>
   ex_notes \<in> set (pendingFiles ex_attach) \<and> list_all readable (pendingFiles ex_attach) \<and>
   snd (sendMessage (ex_env ex_response_42) ex_attach) = [ex_request ex_attach_turn] \<and>
   role (last (req_messages (ex_request ex_attach_turn))) = RUser \<and>
   content (last (req_messages (ex_request ex_attach_turn))) ! 1 =
     Text (JStr (lit ''Attachment: Text file "notes.txt". Content below:\<newline>----- BEGIN notes.txt -----\<newline>alpha beta\<newline>----- END notes.txt -----''))\<close>
proof -
  have ty: "type ex_notes = lit ''text/plain''"
    and tx: "decodedText ex_notes = Some (lit ''alpha beta'')"
    and nm: "name ex_notes = lit ''notes.txt''"
    by (simp_all add: ex_notes_def)
  have short: "length (lit ''alpha beta'') \<le> 200000"
    by (simp add: lit_def)
  have pending: "ex_notes \<in> set (pendingFiles ex_attach)"
    by (simp add: ex_attach_pending)
  from text_attachment_truncated [OF ty tx] obtain body block where
    block: \<open>block =
       Text (JStr (lit ''Attachment: Text file "'' @ name ex_notes @ lit ''". Content below:\<newline>'' @
                   lit ''----- BEGIN '' @ name ex_notes @ lit '' -----\<newline>'' @
                   body @
                   lit ''\<newline>----- END '' @ name ex_notes @ lit '' -----''))\<close> and
    emitted: "fileBlocks ex_notes = Inr [block]" and
    whole: "length (lit ''alpha beta'') \<le> 200000 \<longrightarrow> body = lit ''alpha beta''" and
    posted: "\<forall>env st. ex_notes \<in> set (pendingFiles st) \<and> list_all readable (pendingFiles st) \<longrightarrow>
        (\<exists>req. snd (sendMessage env st) = [req] \<and>
               role (last (req_messages req)) = RUser \<and>
               block \<in> set (content (last (req_messages req))))"
    by blast
  from whole short have body: "body = lit ''alpha beta''" by simp
  have flat: \<open>block =
     Text (JStr (lit ''Attachment: Text file "notes.txt". Content below:\<newline>----- BEGIN notes.txt -----\<newline>alpha beta\<newline>----- END notes.txt -----''))\<close>
    by (simp add: block body nm lit_def)
  from posted pending ex_attach_readable obtain req where
    req: "snd (sendMessage (ex_env ex_response_42) ex_attach) = [req]"
      "role (last (req_messages req)) = RUser"
      "block \<in> set (content (last (req_messages req)))"
    by blast
  from req(1) have r: "req = ex_request ex_attach_turn"
    by (simp add: ex_attach_posted)
  have c: "content (last (req_messages (ex_request ex_attach_turn))) = ex_attach_turn"
    by (simp add: ex_request_def)
  have second: \<open>content (last (req_messages (ex_request ex_attach_turn))) ! 1 =
     Text (JStr (lit ''Attachment: Text file "notes.txt". Content below:\<newline>----- BEGIN notes.txt -----\<newline>alpha beta\<newline>----- END notes.txt -----''))\<close>
    unfolding c by (simp add: ex_attach_turn_def ex_notes_block_def)
  from ty tx emitted flat pending ex_attach_readable req(1,2) r second
  show ?thesis by simp
qed

text \<open>
  C10. A send that passes the guard appends a user-role placeholder message first. Its
  text is the trimmed input when that is not empty: the input without the white space
  at its two ends. Otherwise (only attachments are pending) it is the text
  \<open>(sent attachments)\<close>, and the first content block of the current turn is the
  directive text for attachments sent without a message: when no read is rejected the
  send posts a request, and that block opens the user-role message that ends it.
\<close>

theorem placeholder_message_text:
  assumes "trim (input st) \<noteq> [] \<or> pendingFiles st \<noteq> []"
  shows "\<exists>placeholder reply.
     messages (fst (sendMessage env st)) = messages st @ [placeholder, reply] \<and>
     msg_role placeholder = User \<and>
     (trim (input st) \<noteq> [] \<longrightarrow> msg_text placeholder = JStr (trim (input st))) \<and>
     (trim (input st) = [] \<longrightarrow>
        msg_text placeholder = JStr (lit ''(sent attachments)'') \<and>
        (\<forall>req. snd (sendMessage env st) = [req] \<longrightarrow>
           hd (content (last (req_messages req))) =
             Text (JStr (lit ''User sent attachments without a message.\<newline>'' @
                         lit ''Assistant controls: '' @ controlDirectives st @ lit ''\<newline>'' @
                         lit ''Please extract, summarize, and provide structured insights. If tables are present, render them as Markdown tables.\<newline>''))) \<and>
        (list_all readable (pendingFiles st) \<longrightarrow>
           (\<exists>req. snd (sendMessage env st) = [req] \<and>
              role (last (req_messages req)) = RUser \<and>
              hd (content (last (req_messages req))) =
                Text (JStr (lit ''User sent attachments without a message.\<newline>'' @
                            lit ''Assistant controls: '' @ controlDirectives st @ lit ''\<newline>'' @
                            lit ''Please extract, summarize, and provide structured insights. If tables are present, render them as Markdown tables.\<newline>''))))) \<and>
     (\<exists>l r. input st = l @ trim (input st) @ r \<and>
            list_all isWhiteSpace l \<and> list_all isWhiteSpace r) \<and>
     (trim (input st) \<noteq> [] \<longrightarrow>
        \<not> isWhiteSpace (hd (trim (input st))) \<and> \<not> isWhiteSpace (last (trim (input st))))"
proof -
  let ?p = "userMsg env st" and ?r = "assistantMsg env (fst (tryBlock env st))"
  let ?directive =
    "Text (JStr (lit ''User sent attachments without a message.\<newline>'' @
                 lit ''Assistant controls: '' @ controlDirectives st @ lit ''\<newline>'' @
                 lit ''Please extract, summarize, and provide structured insights. If tables are present, render them as Markdown tables.\<newline>''))"
  have m: "messages (fst (sendMessage env st)) = messages st @ [?p, ?r]"
    using assms by (rule messages_sendMessage)
  have role: "msg_role ?p = User"
    by (simp add: userMsg_def Let_def)
  have typed: "trim (input st) \<noteq> [] \<longrightarrow> msg_text ?p = JStr (trim (input st))"
    by (simp add: userMsg_def Let_def)
  have bare: "trim (input st) = [] \<longrightarrow> msg_text ?p = JStr (lit ''(sent attachments)'')"
    by (simp add: userMsg_def Let_def)
  have first: "hd (content (last (req_messages req))) = ?directive"
    and user: "role (last (req_messages req)) = RUser"
    if "trim (input st) = []" and "snd (sendMessage env st) = [req]" for req
  proof -
    from sendMessage_posted [OF that(2)] obtain userBlocks where
      ub: "attachmentBlocks (pendingFiles st) [firstBlock st] = Inr userBlocks" and
      req: "req_messages req = buildHistory st userBlocks"
      by auto
    from attachmentBlocks_extends [OF ub] obtain ext where "userBlocks = [firstBlock st] @ ext" ..
    with req have "hd (content (last (req_messages req))) = firstBlock st"
      by (simp add: last_buildHistory)
    with that(1) show "hd (content (last (req_messages req))) = ?directive"
      by (simp add: firstBlock_def Let_def attachmentsOnlyText_def)
    from req show "role (last (req_messages req)) = RUser"
      by (simp add: last_buildHistory)
  qed
  have posted: "\<exists>req. snd (sendMessage env st) = [req] \<and>
      role (last (req_messages req)) = RUser \<and>
      hd (content (last (req_messages req))) = ?directive"
    if "trim (input st) = []" and "list_all readable (pendingFiles st)"
  proof -
    from posted_when_readable [OF assms that(2)] obtain req where
      "snd (sendMessage env st) = [req]" ..
    with first [OF that(1)] user [OF that(1)] show ?thesis by blast
  qed
  from m role typed bare first posted trim_decomposition [of "input st"] trim_ends [of "input st"]
  show ?thesis by blast
qed

theorem placeholder_message_text_witness:
  "pendingFiles ex_attach \<noteq> [] \<and> trim (input ex_attach) = [] \<and>
   msg_text (messages (fst (sendMessage (ex_env ex_response_42) ex_attach)) ! 2) =
     JStr (lit ''(sent attachments)'') \<and>
   list_all readable (pendingFiles ex_attach) \<and>
   snd (sendMessage (ex_env ex_response_42) ex_attach) = [ex_request ex_attach_turn] \<and>
   role (last (req_messages (ex_request ex_attach_turn))) = RUser \<and>
   hd (content (last (req_messages (ex_request ex_attach_turn)))) =
     Text (JStr (lit ''User sent attachments without a message.\<newline>Assistant controls: Tone: neutral | Depth: balanced | Citations: auto | ExtractTables: true | DescribeImages: true\<newline>Please extract, summarize, and provide structured insights. If tables are present, render them as Markdown tables.\<newline>'')) \<and>
   trim (input ex_state) = lit ''hi'' \<and>
   msg_text (messages (fst (sendMessage (ex_env ex_response_42) ex_state)) ! 2) =
     JStr (lit ''hi'')"
proof -
  have a: "pendingFiles ex_attach \<noteq> []"
    by (simp add: ex_attach_def)
  have t: "trim (input ex_attach) = []"
    by (rule ex_attach_trim)
  have m: "messages ex_attach = ex_prior" "messages ex_state = ex_prior"
    by (simp_all add: ex_attach_def ex_state_def)
  have l: "length ex_prior = 2"
    by (simp add: ex_prior_def)
  have h: "trim (input ex_state) = lit ''hi''"
    by (simp add: ex_state_def trim_hi)
  have n: "lit ''hi'' \<noteq> []"
    by (simp add: lit_def)
  from a have a': "trim (input ex_attach) \<noteq> [] \<or> pendingFiles ex_attach \<noteq> []" ..
  from h n have h': "trim (input ex_state) \<noteq> [] \<or> pendingFiles ex_state \<noteq> []" by simp
  from placeholder_message_text [OF a', of "ex_env ex_response_42"] t m l
  have 1: "msg_text (messages (fst (sendMessage (ex_env ex_response_42) ex_attach)) ! 2) =
     JStr (lit ''(sent attachments)'')"
    by (auto simp: nth_append)
  from placeholder_message_text [OF a', of "ex_env ex_response_42"] t ex_attach_readable
  obtain req where
    req: "snd (sendMessage (ex_env ex_response_42) ex_attach) = [req]"
      "role (last (req_messages req)) = RUser"
      "hd (content (last (req_messages req))) =
         Text (JStr (lit ''User sent attachments without a message.\<newline>'' @
                     lit ''Assistant controls: '' @ controlDirectives ex_attach @ lit ''\<newline>'' @
                     lit ''Please extract, summarize, and provide structured insights. If tables are present, render them as Markdown tables.\<newline>''))"
    by blast
  from req(1) have r: "req = ex_request ex_attach_turn"
    by (simp add: ex_attach_posted)
  from req(3) have 3: "hd (content (last (req_messages (ex_request ex_attach_turn)))) =
     Text (JStr (lit ''User sent attachments without a message.\<newline>Assistant controls: Tone: neutral | Depth: balanced | Citations: auto | ExtractTables: true | DescribeImages: true\<newline>Please extract, summarize, and provide structured insights. If tables are present, render them as Markdown tables.\<newline>''))"
    by (simp add: r ex_attach_directives ex_directives_def lit_def)
  from placeholder_message_text [OF h', of "ex_env ex_response_42"] h n m l
  have 2: "msg_text (messages (fst (sendMessage (ex_env ex_response_42) ex_state)) ! 2) =
     JStr (lit ''hi'')"
    by (auto simp: nth_append)
  from a t h 1 2 3 ex_attach_readable req(1,2) r show ?thesis by simp
qed

text \<open>
  C2. A send that fails, for whichever of the reasons, appends after the placeholder
  exactly one message: it has the assistant role, and its text is the fixed prefix
  followed by the description of the error (its message, or the error printed as a
  string when the message is empty). At most one request is posted: nothing is retried.
  By \<open>throws_sendFails\<close> the reasons of \<open>sendFails\<close> are all the ways in which the
  \<open>try\<close> block can throw.
\<close>

theorem failed_send_appends_error_message:
  assumes "sendFails env st err"
  shows "\<exists>placeholder reply.
     messages (fst (sendMessage env st)) = messages st @ [placeholder, reply] \<and>
     msg_role placeholder = User \<and>
     msg_role reply = Assistant \<and>
     msg_text reply =
       JStr (lit ''I ran into an issue reaching the assistant service. Please try again. Details: '' @
             (if err_message err \<noteq> [] then err_message err else errorToString err)) \<and>
     length (snd (sendMessage env st)) \<le> 1"
proof -
  from sendFails_throws [OF assms] have
    g: "trim (input st) \<noteq> [] \<or> pendingFiles st \<noteq> []" and
    t: "fst (tryBlock env st) = Inl err"
    by simp_all
  let ?p = "userMsg env st" and ?r = "assistantMsg env (fst (tryBlock env st))"
  have "messages (fst (sendMessage env st)) = messages st @ [?p, ?r]"
    using g by (rule messages_sendMessage)
  moreover have "msg_role ?p = User"
    by (simp add: userMsg_def Let_def)
  moreover have "msg_role ?r = Assistant"
    by (simp add: assistantMsg_def t)
  moreover have "msg_text ?r =
       JStr (lit ''I ran into an issue reaching the assistant service. Please try again. Details: '' @
             (if err_message err \<noteq> [] then err_message err else errorToString err))"
    by (simp add: assistantMsg_def t failurePrefix_def errorDetails_def)
  moreover have "length (snd (sendMessage env st)) \<le> 1"
    using g tryBlock_at_most_one [of env st] by (simp add: sendMessage_guarded)
  ultimately show ?thesis by blast
qed

theorem failed_send_appends_error_message_witness:
  "sendFails (ex_env ex_response_500) ex_state (new_Error (lit ''API error: 500 upstream down'')) \<and>
   msg_role (messages (fst (sendMessage (ex_env ex_response_500) ex_state)) ! 3) = Assistant \<and>
   msg_text (messages (fst (sendMessage (ex_env ex_response_500) ex_state)) ! 3) =
     JStr (lit ''I ran into an issue reaching the assistant service. Please try again. Details: API error: 500 upstream down'') \<and>
   length (messages (fst (sendMessage (ex_env ex_response_500) ex_state))) = 4 \<and>
   sendFails (ex_env ex_response_42) ex_lost (new_Error (lit ''File read error'')) \<and>
   snd (sendMessage (ex_env ex_response_42) ex_lost) = []"
proof -
  let ?err = "new_Error (lit ''API error: 500 upstream down'')"
  have f1: "sendFails (ex_env ex_response_500) ex_state ?err"
    by (simp add: sendFails_def ex_posted ex_fetch)
      (simp add: ex_response_500_def ok_def decimal.simps lit_def)
  have l: "length (messages ex_state) = 2"
    by (simp add: ex_state_def ex_prior_def)
  have m: "err_message ?err \<noteq> []"
    by (simp add: new_Error_def lit_def)
  from failed_send_appends_error_message [OF f1] l m
  have 1: "msg_role (messages (fst (sendMessage (ex_env ex_response_500) ex_state)) ! 3) = Assistant"
    and 2: "msg_text (messages (fst (sendMessage (ex_env ex_response_500) ex_state)) ! 3) =
     JStr (lit ''I ran into an issue reaching the assistant service. Please try again. Details: '' @
           err_message ?err)"
    and 3: "length (messages (fst (sendMessage (ex_env ex_response_500) ex_state))) = 4"
    by (auto simp: nth_append)
  have 4: "lit ''I ran into an issue reaching the assistant service. Please try again. Details: '' @
           err_message ?err =
     lit ''I ran into an issue reaching the assistant service. Please try again. Details: API error: 500 upstream down''"
    by (simp add: new_Error_def lit_def)
  have f2: "sendFails (ex_env ex_response_42) ex_lost (new_Error (lit ''File read error''))"
    by (simp add: sendFails_def ex_lost_def ex_state_def ex_unreadable_def fileBlocks_def
        readFileAsDataURL_def startsWith_def lit_def)
  have 5: "snd (sendMessage (ex_env ex_response_42) ex_lost) = []"
    by (simp add: sendMessage_requests tryBlock_def ex_lost_def ex_state_def ex_unreadable_def
        fileBlocks_def readFileAsDataURL_def startsWith_def lit_def)
  from f1 1 2 3 4 f2 5 show ?thesis by simp
qed

text \<open>
  C1, as amended. The message sequence of the request that a send posts is: one
  system-role message whose only block is the system prompt text; then the last twelve
  prior turns (all of them when there are fewer), each as one text block under its own
  role; then one user-role message for the current turn; and nothing else. The
  directives derived from the tone, depth, citation and toggle settings are not in the
  system message: they are part of the text of the first block of the current turn.
\<close>

theorem outbound_message_sequence:
  assumes "snd (sendMessage env st) = [req]"
  shows "\<exists>prior blocks directiveText others.
     req_messages req =
       [\<lparr>role = RSystem, content = [Text (JStr (systemPrompt st))]\<rparr>] @
       map (\<lambda>m. \<lparr>role = openRouterRole (msg_role m), content = [Text (msg_text m)]\<rparr>) prior @
       [\<lparr>role = RUser, content = blocks\<rparr>] \<and>
     prior = drop (length (messages st) - 12) (messages st) \<and>
     length prior = min 12 (length (messages st)) \<and>
     length (filter (\<lambda>m. role m = RSystem) (req_messages req)) = 1 \<and>
     length (req_messages req) \<le> 14 \<and>
     blocks = Text (JStr directiveText) # others \<and>
     occursIn (controlDirectives st) directiveText"
proof -
  from sendMessage_posted [OF assms] obtain blocks where
    ub: "attachmentBlocks (pendingFiles st) [firstBlock st] = Inr blocks" and
    req: "req_messages req = buildHistory st blocks"
    by auto
  from attachmentBlocks_extends [OF ub] obtain others where
    "blocks = [firstBlock st] @ others" ..
  with firstBlock_directives [of st] obtain t where
    t: "blocks = Text (JStr t) # others" "occursIn (controlDirectives st) t"
    by auto
  let ?prior = "drop (length (messages st) - 12) (messages st)"
  have "req_messages req =
       [\<lparr>role = RSystem, content = [Text (JStr (systemPrompt st))]\<rparr>] @
       map (\<lambda>m. \<lparr>role = openRouterRole (msg_role m), content = [Text (msg_text m)]\<rparr>) ?prior @
       [\<lparr>role = RUser, content = blocks\<rparr>]"
    by (simp add: req buildHistory_eq slice_last_def)
  moreover have "length ?prior = min 12 (length (messages st))" by simp
  moreover have "length (filter (\<lambda>m. role m = RSystem) (req_messages req)) = 1"
    by (simp only: req one_system_message)
  moreover have "length (req_messages req) \<le> 14"
    by (simp only: req length_buildHistory)
  ultimately show ?thesis using t by blast
qed

theorem outbound_message_sequence_witness:
  "snd (sendMessage (ex_env ex_response_42) ex_state) = [ex_request ex_turn] \<and>
   length (req_messages (ex_request ex_turn)) = 4 \<and>
   hd (req_messages (ex_request ex_turn)) =
     \<lparr>role = RSystem, content = [Text (JStr (lit ''Be brief.''))]\<rparr> \<and>
   role (last (req_messages (ex_request ex_turn))) = RUser"
proof -
  have p: "snd (sendMessage (ex_env ex_response_42) ex_state) = [ex_request ex_turn]"
    by (rule ex_posted)
  have s: "systemPrompt ex_state = lit ''Be brief.''" and m: "length (messages ex_state) = 2"
    by (simp_all add: ex_state_def ex_prior_def)
  from outbound_message_sequence [OF p] s m
  have "length (req_messages (ex_request ex_turn)) = 4 \<and>
   hd (req_messages (ex_request ex_turn)) =
     \<lparr>role = RSystem, content = [Text (JStr (lit ''Be brief.''))]\<rparr> \<and>
   role (last (req_messages (ex_request ex_turn))) = RUser"
    by auto
  with p show ?thesis by simp
qed

text \<open>
  As stated, with the system message carrying the directives derived from the
  settings, the property fails: the system message of the example send holds the
  system prompt alone, the directives do not occur in it, and it stays the same when
  all five settings are changed.
\<close>

theorem system_block_ignores_settings:
  "controlDirectives ex_state \<noteq> controlDirectives ex_state_formal \<and>
   hd (req_messages (hd (snd (sendMessage (ex_env ex_response_42) ex_state)))) =
     \<lparr>role = RSystem, content = [Text (JStr (lit ''Be brief.''))]\<rparr> \<and>
   hd (req_messages (hd (snd (sendMessage (ex_env ex_response_42) ex_state_formal)))) =
     \<lparr>role = RSystem, content = [Text (JStr (lit ''Be brief.''))]\<rparr> \<and>
   \<not> carries (content (hd (req_messages (hd (snd (sendMessage (ex_env ex_response_42) ex_state))))))
         (controlDirectives ex_state)"
proof -
  have d: "controlDirectives ex_state \<noteq> controlDirectives ex_state_formal"
    by (simp add: controlDirectives_def ex_state_formal_def ex_state_def lit_def)
  have f: "pendingFiles ex_state = []" "pendingFiles ex_state_formal = []"
    by (simp_all add: ex_state_formal_def ex_state_def)
  have "trim (input ex_state) = lit ''hi''" "trim (input ex_state_formal) = lit ''hi''"
    by (simp_all add: ex_state_formal_def ex_state_def trim_hi)
  moreover have "lit ''hi'' \<noteq> []" by (simp add: lit_def)
  ultimately have t: "trim (input ex_state) \<noteq> []" "trim (input ex_state_formal) \<noteq> []"
    by simp_all
  have p: "systemPrompt ex_state = lit ''Be brief.''"
    "systemPrompt ex_state_formal = lit ''Be brief.''"
    by (simp_all add: ex_state_formal_def ex_state_def)
  have 1: "hd (req_messages (hd (snd (sendMessage (ex_env ex_response_42) ex_state)))) =
     \<lparr>role = RSystem, content = [Text (JStr (lit ''Be brief.''))]\<rparr>"
    by (simp add: posted_without_files [OF f(1) t(1)] hd_buildHistory p)
  have 2: "hd (req_messages (hd (snd (sendMessage (ex_env ex_response_42) ex_state_formal)))) =
     \<lparr>role = RSystem, content = [Text (JStr (lit ''Be brief.''))]\<rparr>"
    by (simp add: posted_without_files [OF f(2) t(2)] hd_buildHistory p)
  have "\<not> occursIn ex_directives (lit ''Be brief.'')"
    by (simp add: ex_directives_def lit_def startsWith_def)
  then have 3: "\<not> carries (content (hd (req_messages (hd (snd (sendMessage (ex_env ex_response_42) ex_state))))))
         (controlDirectives ex_state)"
    by (simp add: 1 ex_controlDirectives)
  from d 1 2 3 show ?thesis by simp
qed

text \<open>
  C3, as amended. When the request is answered with a status in 200..299 and the body
  parses as JSON, the message appended after the placeholder has the assistant role and
  its text is the value of \<open>choices[0].message.content\<close> of the body; when that value is
  absent (no \<open>choices\<close>, no first element, no \<open>message\<close>, no \<open>content\<close>) or null, the
  text is \<open>(no response)\<close>.
\<close>

theorem parsed_reply_text:
  assumes "snd (sendMessage env st) = [req]" and "fetch env req = Resolved resp"
    and "ok resp" and "body_json resp = Inr data"
  shows "\<exists>placeholder reply.
     messages (fst (sendMessage env st)) = messages st @ [placeholder, reply] \<and>
     msg_role placeholder = User \<and>
     msg_role reply = Assistant \<and>
     (\<forall>v. firstChoiceContent data = Some v \<and> v \<noteq> JNull \<longrightarrow> msg_text reply = v) \<and>
     (firstChoiceContent data = None \<or> firstChoiceContent data = Some JNull \<longrightarrow>
        msg_text reply = JStr (lit ''(no response)'')) \<and>
     (\<forall>props choice others message v.
        data = JObj props \<and>
        map_of props (lit ''choices'') = Some (JArr (JObj choice # others)) \<and>
        map_of choice (lit ''message'') = Some (JObj message) \<and>
        map_of message (lit ''content'') = Some v \<and> v \<noteq> JNull \<longrightarrow>
        msg_text reply = v) \<and>
     (\<forall>props choice others message.
        data = JObj props \<and>
        (map_of props (lit ''choices'') = None \<or>
         map_of props (lit ''choices'') = Some (JArr []) \<or>
         map_of props (lit ''choices'') = Some (JArr (JObj choice # others)) \<and>
         (map_of choice (lit ''message'') = None \<or>
          map_of choice (lit ''message'') = Some (JObj message) \<and>
          map_of message (lit ''content'') = None)) \<longrightarrow>
        msg_text reply = JStr (lit ''(no response)''))"
proof -
  from assms(1) have g: "trim (input st) \<noteq> [] \<or> pendingFiles st \<noteq> []"
    by (rule sendMessage_posted_guard)
  from sendMessage_posted [OF assms(1)] assms(2-4)
  have t: "fst (tryBlock env st) = Inr (responseContent data)"
    by (auto simp: readReply_parsed)
  let ?p = "userMsg env st" and ?r = "assistantMsg env (fst (tryBlock env st))"
  have m: "messages (fst (sendMessage env st)) = messages st @ [?p, ?r]"
    using g by (rule messages_sendMessage)
  have p: "msg_role ?p = User"
    by (simp add: userMsg_def Let_def)
  have r: "msg_role ?r = Assistant"
    by (simp add: assistantMsg_def t)
  have x: "msg_text ?r = responseContent data"
    by (simp add: assistantMsg_def t)
  have present: "msg_text ?r = v" if "firstChoiceContent data = Some v" and "v \<noteq> JNull" for v
    using that by (simp add: x responseContent_present)
  have absent: "msg_text ?r = JStr (lit ''(no response)'')"
    if "firstChoiceContent data = None \<or> firstChoiceContent data = Some JNull"
    using that by (simp only: x responseContent_absent)
  have shaped: "msg_text ?r = v"
    if "data = JObj props"
      and "map_of props (lit ''choices'') = Some (JArr (JObj choice # others))"
      and "map_of choice (lit ''message'') = Some (JObj message)"
      and "map_of message (lit ''content'') = Some v" and "v \<noteq> JNull"
    for props choice others message v
  proof -
    from that(1-4) have "firstChoiceContent data = Some v"
      by (simp add: firstChoiceContent_shape)
    then show ?thesis using that(5) by (rule present)
  qed
  have missing: "msg_text ?r = JStr (lit ''(no response)'')"
    if "data = JObj props"
      and "map_of props (lit ''choices'') = None \<or>
         map_of props (lit ''choices'') = Some (JArr []) \<or>
         map_of props (lit ''choices'') = Some (JArr (JObj choice # others)) \<and>
         (map_of choice (lit ''message'') = None \<or>
          map_of choice (lit ''message'') = Some (JObj message) \<and>
          map_of message (lit ''content'') = None)"
    for props choice others message
  proof -
    from that have "firstChoiceContent data = None"
      by (auto simp: firstChoiceContent_no_choices firstChoiceContent_no_first
          firstChoiceContent_no_message firstChoiceContent_shape)
    then show ?thesis by (simp add: absent)
  qed
  from m p r present absent shaped missing show ?thesis by blast
qed


theorem parsed_reply_text_witness:
  "snd (sendMessage (ex_env ex_response_42) ex_state) = [ex_request ex_turn] \<and>
   fetch (ex_env ex_response_42) (ex_request ex_turn) = Resolved ex_response_42 \<and>
   ok ex_response_42 \<and> body_json ex_response_42 = Inr ex_body_42 \<and>
   msg_text (messages (fst (sendMessage (ex_env ex_response_42) ex_state)) ! 3) = JStr (lit ''42'') \<and>
   ok ex_response_empty \<and>
   msg_text (messages (fst (sendMessage (ex_env ex_response_empty) ex_state)) ! 3) =
     JStr (lit ''(no response)'')"
proof -
  have l: "length (messages ex_state) = 2"
    by (simp add: ex_state_def ex_prior_def)
  have o: "ok ex_response_42" "ok ex_response_empty"
    by (simp_all add: ok_def ex_response_42_def ex_response_empty_def)
  have b: "body_json ex_response_42 = Inr ex_body_42"
    "body_json ex_response_empty = Inr (JObj [(lit ''choices'', JArr [])])"
    by (simp_all add: ex_response_42_def ex_response_empty_def)
  have c: "firstChoiceContent ex_body_42 = Some (JStr (lit ''42''))"
    "firstChoiceContent (JObj [(lit ''choices'', JArr [])]) = None"
    by (simp_all add: firstChoiceContent_def ex_body_42_def lit_def)
  have n: "JStr (lit ''42'') \<noteq> JNull" by simp
  from parsed_reply_text [OF ex_posted ex_fetch o(1) b(1)] c(1) n l
  have 1: "msg_text (messages (fst (sendMessage (ex_env ex_response_42) ex_state)) ! 3) =
      JStr (lit ''42'')"
    by (auto simp: nth_append)
  from parsed_reply_text [OF ex_posted ex_fetch o(2) b(2)] c(2) l
  have 2: "msg_text (messages (fst (sendMessage (ex_env ex_response_empty) ex_state)) ! 3) =
      JStr (lit ''(no response)'')"
    by (auto simp: nth_append)
  from ex_posted [of ex_response_42] ex_fetch [of ex_response_42 "ex_request ex_turn"] o b(1) 1 2
  show ?thesis by simp
qed

text \<open>
  As stated, for every response with a status in 200..299, the property fails: when the
  body of such a response does not parse, the appended text is the failure message, and
  not \<open>(no response)\<close>.
\<close>

theorem unparsable_ok_body_is_a_failure:
  "ok ex_response_unparsable \<and>
   snd (sendMessage (ex_env ex_response_unparsable) ex_state) = [ex_request ex_turn] \<and>
   fetch (ex_env ex_response_unparsable) (ex_request ex_turn) = Resolved ex_response_unparsable \<and>
   msg_text (last (messages (fst (sendMessage (ex_env ex_response_unparsable) ex_state)))) =
     JStr (lit ''I ran into an issue reaching the assistant service. Please try again. Details: Unexpected end of JSON input'') \<and>
   msg_text (last (messages (fst (sendMessage (ex_env ex_response_unparsable) ex_state)))) \<noteq>
     JStr (lit ''(no response)'')"
proof -
  have o: "ok ex_response_unparsable"
    by (simp add: ok_def ex_response_unparsable_def)
  have r: "readReply (Resolved ex_response_unparsable) =
      Inl \<lparr>err_name = lit ''SyntaxError'', err_message = lit ''Unexpected end of JSON input''\<rparr>"
    by (simp add: readReply_def ok_def ex_response_unparsable_def)
  have t: "msg_text (last (messages (fst (sendMessage (ex_env ex_response_unparsable) ex_state)))) =
     JStr (lit ''I ran into an issue reaching the assistant service. Please try again. Details: Unexpected end of JSON input'')"
    by (simp add: ex_reply r assistantMsg_def failurePrefix_def errorDetails_def lit_def)
  have "lit ''I ran into an issue reaching the assistant service. Please try again. Details: Unexpected end of JSON input'' \<noteq>
     lit ''(no response)''"
    by (simp add: lit_def)
  with o t ex_posted [of ex_response_unparsable]
    ex_fetch [of ex_response_unparsable "ex_request ex_turn"]
  show ?thesis by simp
qed

end
